theory Spec2Isabelle
  imports Main
begin

section \<open>Data model\<close>

subsection \<open>Iname tags\<close>

text \<open>
  The tag classes live in \<^verbatim>\<open>loopy.kernel.data\<close>, which is not among the sources.
  \<^verbatim>\<open>check.py\<close> never constructs a tag; it only asks \<^verbatim>\<open>isinstance\<close> questions about
  six classes and reads the attributes \<^verbatim>\<open>axis\<close> and \<^verbatim>\<open>key\<close>. A tag object is therefore
  taken as a parameter: the record of the answers it gives to exactly these observations.
\<close>

datatype tag_key = TypeKey string | AxisKey string nat

record tag =
  is_ParallelTag :: bool
  is_GroupIndexTag :: bool
  is_LocalIndexTagBase :: bool
  is_LocalIndexTag :: bool
  is_AutoLocalIndexTagBase :: bool
  is_UniqueTag :: bool
  axis :: nat
  key :: tag_key

text \<open>
  \<^verbatim>\<open>kernel.iname_to_tag.get(iname)\<close> yields \<^verbatim>\<open>None\<close> for an untagged iname, and
  \<^verbatim>\<open>isinstance(None, C)\<close> is false for each of the six classes.
\<close>

text \<open>
  Modelled from the spec: the tags of section 3 (group axis, local axis, the automatic
  local placeholder, a parallel tag that is no hardware axis, and unrolling), as the
  observations they answer. They serve as concrete inputs only; every general statement
  below is about an arbitrary tag.
\<close>

definition GroupAxis :: "nat \<Rightarrow> tag" where
  "GroupAxis i = \<lparr>is_ParallelTag = True, is_GroupIndexTag = True, is_LocalIndexTagBase = False,
     is_LocalIndexTag = False, is_AutoLocalIndexTagBase = False, is_UniqueTag = True,
     axis = i, key = AxisKey ''g'' i\<rparr>"

definition LocalAxis :: "nat \<Rightarrow> tag" where
  "LocalAxis i = \<lparr>is_ParallelTag = True, is_GroupIndexTag = False, is_LocalIndexTagBase = True,
     is_LocalIndexTag = True, is_AutoLocalIndexTagBase = False, is_UniqueTag = True,
     axis = i, key = AxisKey ''l'' i\<rparr>"

definition AutoLocal :: tag where
  "AutoLocal = \<lparr>is_ParallelTag = True, is_GroupIndexTag = False, is_LocalIndexTagBase = True,
     is_LocalIndexTag = False, is_AutoLocalIndexTagBase = True, is_UniqueTag = False,
     axis = 0, key = TypeKey ''auto''\<rparr>"

definition Vector :: tag where
  "Vector = \<lparr>is_ParallelTag = True, is_GroupIndexTag = False, is_LocalIndexTagBase = False,
     is_LocalIndexTag = False, is_AutoLocalIndexTagBase = False, is_UniqueTag = False,
     axis = 0, key = TypeKey ''vec''\<rparr>"

definition Unroll :: tag where
  "Unroll = \<lparr>is_ParallelTag = False, is_GroupIndexTag = False, is_LocalIndexTagBase = False,
     is_LocalIndexTag = False, is_AutoLocalIndexTagBase = False, is_UniqueTag = False,
     axis = 0, key = TypeKey ''unr''\<rparr>"

definition isinstance :: "tag option \<Rightarrow> (tag \<Rightarrow> bool) \<Rightarrow> bool" where
  "isinstance t cls = (case t of None \<Rightarrow> False | Some x \<Rightarrow> cls x)"

subsection \<open>Expressions\<close>

text \<open>
  The fragment of pymbolic expressions the checks look at. A subscript whose index is not
  a tuple is the subscript with the one-element index list (lines 238-239 normalise it so).
\<close>

datatype expr =
    Variable string
  | Constant int
  | Sum "expr list"
  | Product "expr list"
  | Subscript expr "expr list"

text \<open>
  \<^verbatim>\<open>DependencyMapper()\<close> as lines 91 and 111 build it, with no arguments. The class is
  outside the sources (\<^verbatim>\<open>loopy.symbolic\<close>, on top of pymbolic); with its default
  arguments it collects the variable nodes of sums and products and keeps a subscript as a
  dependency of its own, without looking into it. That is why \<^verbatim>\<open>strip_var\<close> asserts
  that what it is given is a variable (line 120).
\<close>

fun depmap :: "expr \<Rightarrow> expr list" where
  "depmap (Variable n) = [Variable n]"
| "depmap (Constant c) = []"
| "depmap (Sum es) = concat (map depmap es)"
| "depmap (Product es) = concat (map depmap es)"
| "depmap (Subscript a idx) = [Subscript a idx]"

definition depmap_tuple :: "expr list \<Rightarrow> expr list" where
  "depmap_tuple es = concat (map depmap es)"

text \<open>The names of the variable nodes of a list of expressions.\<close>

fun var_names :: "expr list \<Rightarrow> string list" where
  "var_names [] = []"
| "var_names (Variable n # es) = n # var_names es"
| "var_names (e # es) = var_names es"

text \<open>
  Modelled from the spec: \<^verbatim>\<open>loopy.symbolic.get_dependencies\<close> is not among the sources;
  section 6 of the specification describes it as free-variable extraction from an
  expression. It gives the names of all variables, those inside subscripts too.
\<close>

fun all_variables :: "expr \<Rightarrow> expr list" where
  "all_variables (Variable n) = [Variable n]"
| "all_variables (Constant c) = []"
| "all_variables (Sum es) = concat (map all_variables es)"
| "all_variables (Product es) = concat (map all_variables es)"
| "all_variables (Subscript a idx) = all_variables a @ concat (map all_variables idx)"

subsection \<open>Polyhedral sets\<close>

text \<open>
  An isl set is kept by its space (parameter names, set-dimension names) and its
  denotation: the assignments of integers to names that satisfy it. Only the values at
  the names of the space matter.
\<close>

type_synonym point = "string \<Rightarrow> int"

record isl_set =
  param_names :: "string list"
  set_names :: "string list"
  points :: "point set"

subsection \<open>Arguments, temporaries, instructions, kernel\<close>

datatype is_local_value = Is_True | Is_False | Is_Neither

record temp_var =
  tv_name :: string
  tv_shape :: "expr list option"
  is_local :: is_local_value

record arg =
  arg_name :: string
  arg_shape :: "expr list option"
  is_ConstantArg :: bool

text \<open>
  \<^verbatim>\<open>get_assignee_var_name()\<close>, \<^verbatim>\<open>get_assignee_indices()\<close> and \<^verbatim>\<open>kernel.insn_inames(insn)\<close>
  are methods of classes outside the sources; their results are fields of the instruction.
\<close>

record instruction =
  insn_id :: string
  boostable :: bool
  assignee :: expr
  expression :: expr
  assignee_var_name :: string
  assignee_indices :: "expr list"
  iname_list :: "string list"

text \<open>
  \<^verbatim>\<open>kernel.insn_inames(insn)\<close> is a frozenset. The model keeps its elements as a list in
  the order a \<^verbatim>\<open>for\<close> loop visits them; \<open>remdups\<close> makes the list duplicate-free whatever
  list the field holds.
\<close>

definition insn_inames :: "instruction \<Rightarrow> string list" where
  "insn_inames insn = remdups (iname_list insn)"

record device =
  max_work_item_dimensions :: nat
  max_work_item_sizes :: "int list"
  max_work_group_size :: int
  usable_local_mem_size :: int
  local_mem_type_is_LOCAL :: bool
  max_constant_args :: nat

record kernel =
  instructions :: "instruction list"
  iname_to_tag :: "string \<rightharpoonup> tag"
  arg_dict :: "string \<rightharpoonup> arg"
  temporary_variables :: "string \<rightharpoonup> temp_var"
  domains :: "isl_set list"
  all_inames :: "string set"
  all_params :: "string set"
  get_inames_domain :: "string set \<Rightarrow> isl_set"
  group_size :: "expr list"
  local_size :: "expr list"
  local_sizes :: "nat list"
  assumptions :: isl_set
  id_to_insn :: "string \<rightharpoonup> instruction"
  kernel_device :: device
  args :: "arg list"
  local_mem_use :: int

text \<open>The kernel with nothing in it, the starting point of the concrete inputs below.\<close>

definition universe :: isl_set where
  "universe = \<lparr>param_names = [], set_names = [], points = UNIV\<rparr>"

definition no_device :: device where
  "no_device = \<lparr>max_work_item_dimensions = 3, max_work_item_sizes = [512, 512, 64],
     max_work_group_size = 512, usable_local_mem_size = 16384,
     local_mem_type_is_LOCAL = True, max_constant_args = 8\<rparr>"

definition empty_kernel :: kernel where
  "empty_kernel = \<lparr>instructions = [], iname_to_tag = Map.empty, arg_dict = Map.empty,
     temporary_variables = Map.empty, domains = [], all_inames = {}, all_params = {},
     get_inames_domain = (\<lambda>inames. universe), group_size = [], local_size = [],
     local_sizes = [], assumptions = universe, id_to_insn = Map.empty,
     kernel_device = no_device, args = [], local_mem_use = 0\<rparr>"

subsection \<open>Errors\<close>

text \<open>One constructor for each \<^verbatim>\<open>raise\<close>, \<^verbatim>\<open>assert\<close> and failing lookup of the source.\<close>

datatype error =
    AutoLocalTagEncountered
  | UnusedGroupAxes string "nat set" "nat set"
  | UnusedLocalAxes string "nat set" "nat set"
  | MultipleInamesTagged string tag
  | InactiveInameAccess string
  | AssertionError
  | AssigneeInactiveIname string
  | UndecidedLocal string
  | InvalidAssigneeName string
  | WriteRaceConditionError string "string list"
  | OrphanedLocalAxis nat
  | DataDependentParallelBounds nat string "string list"
  | WrongNumberOfIndices string expr nat nat
  | OutOfBounds expr string
  | InameWritten string
  | ParameterNotTemporary string
  | ParameterWrittenInOwnDomain string
  | BareRuntimeError
  | DomainsDoNotMatch string isl_set isl_set "string list"
  | KeyError string
  | IndexError
  | UnknownVariableError string
  | TypeError

text \<open>A \<^verbatim>\<open>for\<close> loop whose body may raise: the first error ends the loop.\<close>

fun for_each :: "('a \<Rightarrow> 'e + unit) \<Rightarrow> 'a list \<Rightarrow> 'e + unit" where
  "for_each body [] = Inr ()"
| "for_each body (x # xs) =
     (case body x of Inl e \<Rightarrow> Inl e | Inr u \<Rightarrow> for_each body xs)"

section \<open>Write races\<close>

definition strip_var :: "expr \<Rightarrow> error + string" where
  "strip_var e = (case e of Variable n \<Rightarrow> Inr n | _ \<Rightarrow> Inl AssertionError)"

fun strip_vars :: "expr list \<Rightarrow> error + string list" where
  "strip_vars [] = Inr []"
| "strip_vars (e # es) =
     (case strip_var e of
        Inl x \<Rightarrow> Inl x
      | Inr n \<Rightarrow> (case strip_vars es of Inl x \<Rightarrow> Inl x | Inr ns \<Rightarrow> Inr (n # ns)))"

definition raceable_parallel_insn_inames :: "kernel \<Rightarrow> instruction \<Rightarrow> error + string list" where
  "raceable_parallel_insn_inames k insn =
     (if assignee_var_name insn \<in> dom (arg_dict k) then
        Inr (filter (\<lambda>iname. isinstance (iname_to_tag k iname) is_ParallelTag)
               (insn_inames insn))
      else
        (case temporary_variables k (assignee_var_name insn) of
           Some temp_var \<Rightarrow>
             (case is_local temp_var of
                Is_True \<Rightarrow>
                  Inr (filter (\<lambda>iname. isinstance (iname_to_tag k iname) is_ParallelTag
                                \<and> \<not> isinstance (iname_to_tag k iname) is_GroupIndexTag)
                         (insn_inames insn))
              | Is_False \<Rightarrow>
                  Inr (filter (\<lambda>iname. isinstance (iname_to_tag k iname) is_ParallelTag
                                \<and> \<not> isinstance (iname_to_tag k iname) is_GroupIndexTag
                                \<and> \<not> isinstance (iname_to_tag k iname) is_LocalIndexTagBase)
                         (insn_inames insn))
              | Is_Neither \<Rightarrow> Inl (UndecidedLocal (tv_name temp_var)))
         | None \<Rightarrow> Inl (InvalidAssigneeName (insn_id insn))))"

text \<open>
  Every dependency of the write index is a variable: the assertion of line 120 holds for
  each of them.
\<close>

definition plain_write_index :: "instruction \<Rightarrow> bool" where
  "plain_write_index insn =
     (\<forall>d \<in> set (depmap_tuple (assignee_indices insn)). \<exists>n. d = Variable n)"

text \<open>
  The inames referenced in the write index: what line 125 computes when every dependency
  is a variable.
\<close>

definition write_index_inames :: "kernel \<Rightarrow> instruction \<Rightarrow> string set" where
  "write_index_inames k insn =
     set (var_names (depmap_tuple (assignee_indices insn))) \<inter> all_inames k"

text \<open>The body of the loop of \<^verbatim>\<open>check_for_write_races\<close> (lines 115-176).\<close>

definition write_race_insn :: "kernel \<Rightarrow> instruction \<Rightarrow> error + unit" where
  "write_race_insn k insn =
     (case strip_vars (depmap_tuple (assignee_indices insn)) of
        Inl e \<Rightarrow> Inl e
      | Inr assignee_idx \<Rightarrow>
          (let assignee_inames = filter (\<lambda>n. n \<in> all_inames k) assignee_idx in
           if \<not> set assignee_inames \<subseteq> set (insn_inames insn) then
             Inl (AssigneeInactiveIname (insn_id insn))
           else
             (case raceable_parallel_insn_inames k insn of
                Inl e \<Rightarrow> Inl e
              | Inr raceable \<Rightarrow>
                  (let race_inames = filter (\<lambda>n. n \<notin> set assignee_inames) raceable in
                   if race_inames \<noteq> [] then
                     Inl (WriteRaceConditionError (insn_id insn) race_inames)
                   else Inr ()))))"

definition check_for_write_races :: "kernel \<Rightarrow> error + unit" where
  "check_for_write_races k = for_each (write_race_insn k) (instructions k)"

text \<open>
  \<^verbatim>\<open>check_for_write_races\<close> raises \<^verbatim>\<open>WriteRaceConditionError\<close> for the instruction with
  the id \<open>i\<close>, and the message names the set \<open>S\<close>.
\<close>

definition write_race_reported :: "kernel \<Rightarrow> string \<Rightarrow> string set \<Rightarrow> bool" where
  "write_race_reported k i S =
     (\<exists>names. check_for_write_races k = Inl (WriteRaceConditionError i names)
        \<and> set names = S)"

text \<open>
  The body of the loop raises \<^verbatim>\<open>WriteRaceConditionError\<close> at the instruction and the
  message names the set \<open>S\<close>.
\<close>

definition raises_write_race_naming :: "kernel \<Rightarrow> instruction \<Rightarrow> string set \<Rightarrow> bool" where
  "raises_write_race_naming k insn S =
     (\<exists>names. write_race_insn k insn = Inl (WriteRaceConditionError (insn_id insn) names)
        \<and> set names = S)"

section \<open>Hardware axis checks\<close>

text \<open>The loop over \<^verbatim>\<open>kernel.insn_inames(insn)\<close> of lines 49-57.\<close>

fun axes_used :: "kernel \<Rightarrow> string list \<Rightarrow> nat set \<times> nat set \<Rightarrow> error + (nat set \<times> nat set)" where
  "axes_used k [] acc = Inr acc"
| "axes_used k (iname # rest) (group_axes_used, local_axes_used) =
     (case iname_to_tag k iname of
        None \<Rightarrow> axes_used k rest (group_axes_used, local_axes_used)
      | Some tag \<Rightarrow>
          if is_LocalIndexTag tag then
            axes_used k rest (group_axes_used, insert (axis tag) local_axes_used)
          else if is_GroupIndexTag tag then
            axes_used k rest (insert (axis tag) group_axes_used, local_axes_used)
          else if is_AutoLocalIndexTagBase tag then Inl AutoLocalTagEncountered
          else axes_used k rest (group_axes_used, local_axes_used))"

definition group_axes :: "kernel \<Rightarrow> nat set" where
  "group_axes k = {0..<length (group_size k)}"

definition local_axes :: "kernel \<Rightarrow> nat set" where
  "local_axes k = {0..<length (local_size k)}"

definition unused_hw_axes_insn :: "kernel \<Rightarrow> instruction \<Rightarrow> error + unit" where
  "unused_hw_axes_insn k insn =
     (if boostable insn then Inr ()
      else
        (case axes_used k (insn_inames insn) ({}, {}) of
           Inl e \<Rightarrow> Inl e
         | Inr (group_axes_used, local_axes_used) \<Rightarrow>
             if group_axes k \<noteq> group_axes_used then
               Inl (UnusedGroupAxes (insn_id insn) (group_axes k) group_axes_used)
             else if local_axes k \<noteq> local_axes_used then
               Inl (UnusedLocalAxes (insn_id insn) (local_axes k) local_axes_used)
             else Inr ()))"

definition check_for_unused_hw_axes_in_insns :: "kernel \<Rightarrow> error + unit" where
  "check_for_unused_hw_axes_in_insns k = for_each (unused_hw_axes_insn k) (instructions k)"

text \<open>The inner loop of \<^verbatim>\<open>check_for_double_use_of_hw_axes\<close> (lines 78-86).\<close>

fun double_use_loop :: "kernel \<Rightarrow> string \<Rightarrow> string list \<Rightarrow> tag_key set \<Rightarrow> error + unit" where
  "double_use_loop k i [] insn_tag_keys = Inr ()"
| "double_use_loop k i (iname # rest) insn_tag_keys =
     (case iname_to_tag k iname of
        None \<Rightarrow> double_use_loop k i rest insn_tag_keys
      | Some tag \<Rightarrow>
          if is_UniqueTag tag then
            (if key tag \<in> insn_tag_keys then Inl (MultipleInamesTagged i tag)
             else double_use_loop k i rest (insert (key tag) insn_tag_keys))
          else double_use_loop k i rest insn_tag_keys)"

definition double_use_insn :: "kernel \<Rightarrow> instruction \<Rightarrow> error + unit" where
  "double_use_insn k insn = double_use_loop k (insn_id insn) (insn_inames insn) {}"

definition check_for_double_use_of_hw_axes :: "kernel \<Rightarrow> error + unit" where
  "check_for_double_use_of_hw_axes k = for_each (double_use_insn k) (instructions k)"

text \<open>
  Python's \<^verbatim>\<open>==\<close> between a pymbolic expression and a \<^verbatim>\<open>str\<close>: an expression is
  equal only to an expression of its own class, so the two are never equal.
\<close>

definition expr_equals_str :: "expr \<Rightarrow> string \<Rightarrow> bool" where
  "expr_equals_str e n = False"

text \<open>
  Lines 94-97. The dependency set holds expression nodes and \<^verbatim>\<open>kernel.all_inames()\<close>
  holds strings: \<^verbatim>\<open>&\<close> keeps the nodes that are equal to one of the strings, and
  \<^verbatim>\<open><=\<close> asks whether each of them is equal to an iname of the instruction. (In
  \<^verbatim>\<open>check_for_write_races\<close> the nodes go through \<^verbatim>\<open>strip_var\<close> first; here they do
  not.)
\<close>

definition inactive_iname_access_insn :: "kernel \<Rightarrow> instruction \<Rightarrow> error + unit" where
  "inactive_iname_access_insn k insn =
     (let expression_indices = depmap (expression insn);
          expression_inames =
            filter (\<lambda>e. \<exists>n \<in> all_inames k. expr_equals_str e n) expression_indices
      in if \<not> (\<forall>e \<in> set expression_inames.
                  \<exists>n \<in> set (insn_inames insn). expr_equals_str e n) then
           Inl (InactiveInameAccess (insn_id insn))
         else Inr ())"

definition check_for_inactive_iname_access :: "kernel \<Rightarrow> error + unit" where
  "check_for_inactive_iname_access k =
     for_each (inactive_iname_access_insn k) (instructions k)"

definition orphaned_axis :: "kernel \<Rightarrow> nat \<Rightarrow> error + unit" where
  "orphaned_axis k ax =
     (if \<exists>tag \<in> ran (iname_to_tag k). is_LocalIndexTag tag \<and> axis tag = ax then Inr ()
      else Inl (OrphanedLocalAxis ax))"

definition check_for_orphaned_user_hardware_axes :: "kernel \<Rightarrow> error + unit" where
  "check_for_orphaned_user_hardware_axes k = for_each (orphaned_axis k) (local_sizes k)"

section \<open>Data-dependent parallel bounds\<close>

text \<open>
  \<^verbatim>\<open>set(dom.get_var_names(...))\<close>: a Python set built from a list; the model visits it in
  the order of the list, without repetitions.
\<close>

definition par_inames :: "kernel \<Rightarrow> isl_set \<Rightarrow> string list" where
  "par_inames k dm =
     filter (\<lambda>iname. isinstance (iname_to_tag k iname) is_ParallelTag)
       (remdups (set_names dm))"

definition data_dependent_dom :: "kernel \<Rightarrow> nat \<times> isl_set \<Rightarrow> error + unit" where
  "data_dependent_dom k idom =
     (case idom of (i, dm) \<Rightarrow>
        if par_inames k dm = [] then Inr ()
        else
          for_each
            (\<lambda>par. if par \<in> dom (temporary_variables k) then
                      Inl (DataDependentParallelBounds i par (par_inames k dm))
                    else Inr ())
            (remdups (param_names dm)))"

definition check_for_data_dependent_parallel_bounds :: "kernel \<Rightarrow> error + unit" where
  "check_for_data_dependent_parallel_bounds k =
     for_each (data_dependent_dom k) (enumerate 0 (domains k))"

section \<open>Concrete inputs\<close>

text \<open>
  The race scenario of section 8 of the specification: one instruction that runs across
  the local-axis iname \<open>l\<close> and the parallel iname \<open>p\<close> and writes the temporary
  \<open>t\<close> at the given index; the locality of \<open>t\<close> is the first argument.
\<close>

definition race_insn :: "expr list \<Rightarrow> instruction" where
  "race_insn idx = \<lparr>insn_id = ''write_t'', boostable = False,
     assignee = Subscript (Variable ''t'') idx, expression = Constant 0,
     assignee_var_name = ''t'', assignee_indices = idx, iname_list = [''l'', ''p'']\<rparr>"

definition race_kernel :: "is_local_value \<Rightarrow> expr list \<Rightarrow> kernel" where
  "race_kernel loc idx = empty_kernel\<lparr>
     instructions := [race_insn idx],
     iname_to_tag := [''l'' \<mapsto> LocalAxis 0, ''p'' \<mapsto> Vector],
     temporary_variables :=
       [''t'' \<mapsto> \<lparr>tv_name = ''t'', tv_shape = None, is_local = loc\<rparr>],
     all_inames := {''l'', ''p''}\<rparr>"

section \<open>Vocabulary of the statements\<close>

text \<open>
  Two different inames of the instruction carry unique-keyed tags with the same key.
\<close>

definition unique_key :: "kernel \<Rightarrow> string \<Rightarrow> tag_key option" where
  "unique_key k iname =
     (case iname_to_tag k iname of
        None \<Rightarrow> None
      | Some tag \<Rightarrow> if is_UniqueTag tag then Some (key tag) else None)"

definition shares_unique_key :: "kernel \<Rightarrow> instruction \<Rightarrow> bool" where
  "shares_unique_key k insn =
     (\<exists>a \<in> set (insn_inames insn). \<exists>b \<in> set (insn_inames insn).
        a \<noteq> b \<and> unique_key k a \<noteq> None \<and> unique_key k a = unique_key k b)"

text \<open>Two inames of one instruction bound to the same local axis.\<close>

definition double_use_kernel :: kernel where
  "double_use_kernel = empty_kernel\<lparr>
     instructions := [race_insn []],
     iname_to_tag := [''l'' \<mapsto> LocalAxis 0, ''p'' \<mapsto> LocalAxis 0]\<rparr>"

text \<open>
  The data-dependent-bounds scenario: the domain \<open>0 \<le> l < n\<close> of the local-axis iname
  \<open>l\<close>, in a kernel with the given temporaries.
\<close>

definition l_below_n :: isl_set where
  "l_below_n = \<lparr>param_names = [''n''], set_names = [''l''],
     points = {pt. 0 \<le> pt ''l'' \<and> pt ''l'' < pt ''n''}\<rparr>"

definition parallel_domain_kernel :: "(string \<rightharpoonup> temp_var) \<Rightarrow> kernel" where
  "parallel_domain_kernel temps = empty_kernel\<lparr>
     iname_to_tag := [''l'' \<mapsto> LocalAxis 0],
     temporary_variables := temps,
     domains := [l_below_n],
     all_inames := {''l''}\<rparr>"

text \<open>
  The hardware axes an instruction uses, and whether one of its inames still carries the
  automatic local placeholder; the tests are made in the order of the \<^verbatim>\<open>elif\<close> chain
  of lines 52-57.
\<close>

definition used_local_axes :: "kernel \<Rightarrow> instruction \<Rightarrow> nat set" where
  "used_local_axes k insn =
     {ax. \<exists>iname \<in> set (insn_inames insn). \<exists>tag. iname_to_tag k iname = Some tag
            \<and> is_LocalIndexTag tag \<and> ax = axis tag}"

definition used_group_axes :: "kernel \<Rightarrow> instruction \<Rightarrow> nat set" where
  "used_group_axes k insn =
     {ax. \<exists>iname \<in> set (insn_inames insn). \<exists>tag. iname_to_tag k iname = Some tag
            \<and> \<not> is_LocalIndexTag tag \<and> is_GroupIndexTag tag \<and> ax = axis tag}"

definition has_auto_local_tag :: "kernel \<Rightarrow> instruction \<Rightarrow> bool" where
  "has_auto_local_tag k insn =
     (\<exists>iname \<in> set (insn_inames insn). \<exists>tag. iname_to_tag k iname = Some tag
        \<and> \<not> is_LocalIndexTag tag \<and> \<not> is_GroupIndexTag tag \<and> is_AutoLocalIndexTagBase tag)"

text \<open>
  A grid with one local axis and no group axis. In the first kernel the instruction runs
  across the local axis 0 and an iname that still has the automatic local placeholder; in
  the second across the local axis 0 and a vector iname.
\<close>

definition auto_local_kernel :: kernel where
  "auto_local_kernel = empty_kernel\<lparr>
     instructions := [race_insn []],
     iname_to_tag := [''l'' \<mapsto> LocalAxis 0, ''p'' \<mapsto> AutoLocal],
     local_size := [Constant 16]\<rparr>"

definition covered_kernel :: kernel where
  "covered_kernel = empty_kernel\<lparr>
     instructions := [race_insn []],
     iname_to_tag := [''l'' \<mapsto> LocalAxis 0, ''p'' \<mapsto> Vector],
     local_size := [Constant 16]\<rparr>"

section \<open>External collaborators\<close>

text \<open>
  Functions of libraries outside the repository (isl through islpy, pymbolic) and of
  modules outside the sources (\<^verbatim>\<open>loopy.symbolic\<close>, \<^verbatim>\<open>loopy.isl_helpers\<close>), taken as
  parameters:
  \<^item> \<^verbatim>\<open>get_access_range(domain, subscript)\<close>, \<open>None\<close> when it raises \<^verbatim>\<open>isl.Error\<close>;
  \<^item> \<^verbatim>\<open>make_slab(space, (dim_type.in_, idim), 0, upper)\<close>, the space given by a set that has it;
  \<^item> \<^verbatim>\<open>sample_point()\<close> of a set, \<open>None\<close> for the void point;
  \<^item> pymbolic's \<^verbatim>\<open>evaluate\<close> on a tuple of expressions.
\<close>

record collaborators =
  get_access_range :: "isl_set \<Rightarrow> expr list \<Rightarrow> isl_set option"
  make_slab :: "isl_set \<Rightarrow> nat \<Rightarrow> expr \<Rightarrow> expr \<Rightarrow> isl_set"
  sample_point :: "isl_set \<Rightarrow> point option"
  evaluate :: "expr list \<Rightarrow> (string \<rightharpoonup> int) \<Rightarrow> error + int list"

text \<open>The operations of isl on the denotation of a set.\<close>

definition union_set :: "isl_set \<Rightarrow> isl_set \<Rightarrow> isl_set" where
  "union_set a b = a\<lparr>points := points a \<union> points b\<rparr>"

definition intersect :: "isl_set \<Rightarrow> isl_set \<Rightarrow> isl_set" where
  "intersect a b = a\<lparr>points := points a \<inter> points b\<rparr>"

definition subtract :: "isl_set \<Rightarrow> isl_set \<Rightarrow> isl_set" where
  "subtract a b = a\<lparr>points := points a - points b\<rparr>"

definition is_subset :: "isl_set \<Rightarrow> isl_set \<Rightarrow> bool" where
  "is_subset a b = (points a \<subseteq> points b)"

definition is_equal :: "isl_set \<Rightarrow> isl_set \<Rightarrow> bool" where
  "is_equal a b = (points a = points b)"

definition coalesce :: "isl_set \<Rightarrow> isl_set" where
  "coalesce s = s"

definition universe_of :: "isl_set \<Rightarrow> isl_set" where
  "universe_of s = s\<lparr>points := UNIV\<rparr>"

definition from_params :: "isl_set \<Rightarrow> isl_set" where
  "from_params s = s\<lparr>set_names := []\<rparr>"

text \<open>\<^verbatim>\<open>align_two\<close> gives both sets the parameters of both; the denotations stay.\<close>

definition align_two :: "isl_set \<Rightarrow> isl_set \<Rightarrow> isl_set \<times> isl_set" where
  "align_two a b =
     (let ps = remdups (param_names a @ param_names b)
      in (a\<lparr>param_names := ps\<rparr>, b\<lparr>param_names := ps\<rparr>))"

text \<open>
  \<^verbatim>\<open>project_out_except(names, [dim_type.set])\<close>: the set dimensions that are not among the
  names are projected out; a point belongs to the result when some point of the set
  agrees with it everywhere else.
\<close>

definition project_out_except :: "isl_set \<Rightarrow> string set \<Rightarrow> isl_set" where
  "project_out_except s names =
     s\<lparr>set_names := filter (\<lambda>n. n \<in> names) (set_names s),
       points := {pt. \<exists>q \<in> points s. \<forall>x. x \<notin> set (set_names s) - names \<longrightarrow> pt x = q x}\<rparr>"

section \<open>Bounds\<close>

definition get_dependencies :: "expr list \<Rightarrow> string set" where
  "get_dependencies es = set (var_names (concat (map all_variables es)))"

definition shape_of :: "kernel \<Rightarrow> string \<Rightarrow> expr list option" where
  "shape_of k var_name =
     (case arg_dict k var_name of
        Some a \<Rightarrow> arg_shape a
      | None \<Rightarrow>
          (case temporary_variables k var_name of
             Some tv \<Rightarrow> tv_shape tv
           | None \<Rightarrow> None))"

text \<open>The loop of lines 260-267 that intersects one slab for each index position.\<close>

definition shape_domain :: "collaborators \<Rightarrow> isl_set \<Rightarrow> expr list \<Rightarrow> nat \<Rightarrow> isl_set" where
  "shape_domain c access_range shape n =
     fold (\<lambda>idim sd. intersect sd (make_slab c sd idim (Constant 0) (shape ! idim)))
       [0..<n] (universe_of access_range)"

text \<open>
  \<^verbatim>\<open>_AccessCheckMapper.map_subscript\<close> after the walk into the children (lines 223-272),
  for the subscript with the given aggregate and index.
\<close>

definition map_subscript_check ::
  "collaborators \<Rightarrow> kernel \<Rightarrow> isl_set \<Rightarrow> string \<Rightarrow> expr \<Rightarrow> expr list \<Rightarrow> error + unit" where
  "map_subscript_check c k domain i aggregate subscript =
     (case aggregate of
        Variable var_name \<Rightarrow>
          (case shape_of k var_name of
             None \<Rightarrow> Inr ()
           | Some shape \<Rightarrow>
               (let available_vars = set (param_names domain) \<union> set (set_names domain) in
                if \<not> (get_dependencies subscript \<subseteq> available_vars
                       \<and> get_dependencies shape \<subseteq> available_vars) then Inr ()
                else if length subscript \<noteq> length shape then
                  Inl (WrongNumberOfIndices var_name (Subscript aggregate subscript)
                         (length subscript) (length shape))
                else
                  (case get_access_range c domain subscript of
                     None \<Rightarrow> Inr ()
                   | Some access_range \<Rightarrow>
                       if \<not> is_subset access_range
                              (shape_domain c access_range shape (length subscript)) then
                         Inl (OutOfBounds (Subscript aggregate subscript) i)
                       else Inr ())))
      | _ \<Rightarrow> Inl AssertionError)"

text \<open>
  The walk of \<^verbatim>\<open>WalkMapper\<close>: children first (line 221), then the check of the subscript
  itself.
\<close>

fun acm :: "collaborators \<Rightarrow> kernel \<Rightarrow> isl_set \<Rightarrow> string \<Rightarrow> expr \<Rightarrow> error + unit"
  and acm_list :: "collaborators \<Rightarrow> kernel \<Rightarrow> isl_set \<Rightarrow> string \<Rightarrow> expr list \<Rightarrow> error + unit" where
  "acm c k domain i (Variable n) = Inr ()"
| "acm c k domain i (Constant v) = Inr ()"
| "acm c k domain i (Sum es) = acm_list c k domain i es"
| "acm c k domain i (Product es) = acm_list c k domain i es"
| "acm c k domain i (Subscript a idx) =
     (case acm c k domain i a of
        Inl e \<Rightarrow> Inl e
      | Inr u \<Rightarrow>
          (case acm_list c k domain i idx of
             Inl e \<Rightarrow> Inl e
           | Inr u \<Rightarrow> map_subscript_check c k domain i a idx))"
| "acm_list c k domain i [] = Inr ()"
| "acm_list c k domain i (e # es) =
     (case acm c k domain i e of Inl x \<Rightarrow> Inl x | Inr u \<Rightarrow> acm_list c k domain i es)"

definition check_bounds_insn :: "collaborators \<Rightarrow> kernel \<Rightarrow> instruction \<Rightarrow> error + unit" where
  "check_bounds_insn c k insn =
     (let temp_var_names = dom (temporary_variables k);
          domain = get_inames_domain k (set (insn_inames insn))
      in if set (param_names domain) \<inter> temp_var_names \<noteq> {} then Inr ()
         else
           (case acm c k domain (insn_id insn) (expression insn) of
              Inl e \<Rightarrow> Inl e
            | Inr u \<Rightarrow> acm c k domain (insn_id insn) (assignee insn)))"

definition check_bounds :: "collaborators \<Rightarrow> kernel \<Rightarrow> error + unit" where
  "check_bounds c k = for_each (check_bounds_insn c k) (instructions k)"

section \<open>Write destinations\<close>

definition write_destination_insn :: "kernel \<Rightarrow> instruction \<Rightarrow> error + unit" where
  "write_destination_insn k insn =
     (let wvar = assignee_var_name insn in
      if wvar \<in> all_inames k then Inl (InameWritten wvar)
      else
        (let insn_domain = get_inames_domain k (set (insn_inames insn));
             insn_params = set (param_names insn_domain)
         in if wvar \<in> all_params k \<and> wvar \<notin> dom (temporary_variables k) then
              Inl (ParameterNotTemporary wvar)
            else if wvar \<in> all_params k \<and> wvar \<in> insn_params then
              Inl (ParameterWrittenInOwnDomain wvar)
            else if \<not> (wvar \<in> dom (temporary_variables k) \<or> wvar \<in> dom (arg_dict k))
                    \<and> wvar \<notin> all_params k then
              Inl BareRuntimeError
            else Inr ()))"

definition check_write_destinations :: "kernel \<Rightarrow> error + unit" where
  "check_write_destinations k = for_each (write_destination_insn k) (instructions k)"

section \<open>The orchestrator\<close>

text \<open>What the \<^verbatim>\<open>print\<close> statements write.\<close>

datatype printed = Line string | Kernel_dump kernel | Highlighted_code string

text \<open>The calls of the \<^verbatim>\<open>try\<close> block of lines 317-324, in their order.\<close>

definition automatic_checks :: "collaborators \<Rightarrow> (kernel \<Rightarrow> error + unit) list" where
  "automatic_checks c =
     [check_for_orphaned_user_hardware_axes,
      check_for_double_use_of_hw_axes,
      check_for_unused_hw_axes_in_insns,
      check_for_inactive_iname_access,
      check_for_write_races,
      check_for_data_dependent_parallel_bounds,
      check_bounds c,
      check_write_destinations]"

definition failing_kernel_dump :: "kernel \<Rightarrow> printed list" where
  "failing_kernel_dump k =
     [Line (replicate 75 CHR ''=''),
      Line ''failing kernel after processing:'',
      Line (replicate 75 CHR ''=''),
      Kernel_dump k,
      Line (replicate 75 CHR ''='')]"

text \<open>
  A \<^verbatim>\<open>try\<close> block that calls the checkers one after the other on the kernel; the bare
  \<^verbatim>\<open>except\<close> prints the dump and raises the same error again.
\<close>

definition run_checks :: "(kernel \<Rightarrow> error + unit) list \<Rightarrow> kernel \<Rightarrow> printed list \<times> (error + unit)" where
  "run_checks checks k =
     (case for_each (\<lambda>check. check k) checks of
        Inl e \<Rightarrow> (failing_kernel_dump k, Inl e)
      | Inr u \<Rightarrow> ([], Inr ()))"

text \<open>
  How many of the calls of the \<^verbatim>\<open>try\<close> block are made: a call that raises is the last
  one, the calls after it are not reached.
\<close>

fun checkers_called :: "(kernel \<Rightarrow> error + unit) list \<Rightarrow> kernel \<Rightarrow> nat" where
  "checkers_called [] k = 0"
| "checkers_called (check # rest) k =
     (case check k of Inl e \<Rightarrow> 1 | Inr u \<Rightarrow> Suc (checkers_called rest k))"

definition run_automatic_checks :: "collaborators \<Rightarrow> kernel \<Rightarrow> printed list \<times> (error + unit)" where
  "run_automatic_checks c k = run_checks (automatic_checks c) k"

text \<open>
  The order as section 4.8 of the specification words it: the seven checkers of sections
  4.1 to 4.7, axis coverage first. It is compared with \<open>automatic_checks\<close> below.
\<close>

definition checks_in_specified_order :: "collaborators \<Rightarrow> (kernel \<Rightarrow> error + unit) list" where
  "checks_in_specified_order c =
     [check_for_unused_hw_axes_in_insns,
      check_for_double_use_of_hw_axes,
      check_for_inactive_iname_access,
      check_for_write_races,
      check_for_data_dependent_parallel_bounds,
      check_bounds c,
      check_write_destinations]"

text \<open>
  Modelled from the spec: parameter-environment evaluation (section 6), which signals an
  unknown variable when a binding is missing. It is the evaluator of the example
  collaborators only.
\<close>

fun evaluate_expr :: "(string \<rightharpoonup> int) \<Rightarrow> expr \<Rightarrow> error + int"
  and evaluate_exprs :: "(string \<rightharpoonup> int) \<Rightarrow> expr list \<Rightarrow> error + int list" where
  "evaluate_expr env (Variable n) =
     (case env n of None \<Rightarrow> Inl (UnknownVariableError n) | Some v \<Rightarrow> Inr v)"
| "evaluate_expr env (Constant v) = Inr v"
| "evaluate_expr env (Sum es) =
     (case evaluate_exprs env es of Inl e \<Rightarrow> Inl e | Inr vs \<Rightarrow> Inr (sum_list vs))"
| "evaluate_expr env (Product es) =
     (case evaluate_exprs env es of Inl e \<Rightarrow> Inl e | Inr vs \<Rightarrow> Inr (prod_list vs))"
| "evaluate_expr env (Subscript a idx) =
     (case evaluate_expr env a of Inl e \<Rightarrow> Inl e | Inr v \<Rightarrow> Inl TypeError)"
| "evaluate_exprs env [] = Inr []"
| "evaluate_exprs env (e # es) =
     (case evaluate_expr env e of
        Inl x \<Rightarrow> Inl x
      | Inr v \<Rightarrow> (case evaluate_exprs env es of Inl x \<Rightarrow> Inl x | Inr vs \<Rightarrow> Inr (v # vs)))"

text \<open>
  Example collaborators: no subscript can be analysed, every sample is void, slabs do
  not constrain.
\<close>

definition abstaining :: collaborators where
  "abstaining = \<lparr>get_access_range = (\<lambda>domain subscript. None),
     make_slab = (\<lambda>space idim lower upper. universe_of space),
     sample_point = (\<lambda>s. None),
     evaluate = (\<lambda>es env. evaluate_exprs env es)\<rparr>"

text \<open>A kernel for which the user asked for local axis 0 while no iname is mapped to it.\<close>

definition orphan_kernel :: kernel where
  "orphan_kernel = empty_kernel\<lparr>local_sizes := [0]\<rparr>"

text \<open>The subexpressions of an expression, the expression itself first.\<close>

fun subexprs :: "expr \<Rightarrow> expr list" where
  "subexprs (Variable n) = [Variable n]"
| "subexprs (Constant v) = [Constant v]"
| "subexprs (Sum es) = Sum es # concat (map subexprs es)"
| "subexprs (Product es) = Product es # concat (map subexprs es)"
| "subexprs (Subscript a idx) = Subscript a idx # subexprs a @ concat (map subexprs idx)"

text \<open>
  The bounds scenario: the argument \<open>a\<close> with the one extent 10, read by one instruction
  whose governing domain and whose read expression are given; the instruction writes the
  scalar \<open>t\<close>.
\<close>

definition i_below :: "int \<Rightarrow> isl_set" where
  "i_below n = \<lparr>param_names = [], set_names = [''i''],
     points = {pt. 0 \<le> pt ''i'' \<and> pt ''i'' < n}\<rparr>"

definition read_insn :: "expr \<Rightarrow> instruction" where
  "read_insn e = \<lparr>insn_id = ''read_a'', boostable = False,
     assignee = Variable ''t'', expression = e,
     assignee_var_name = ''t'', assignee_indices = [], iname_list = [''i'']\<rparr>"

definition array_kernel :: "isl_set \<Rightarrow> (string \<rightharpoonup> temp_var) \<Rightarrow> expr \<Rightarrow> kernel" where
  "array_kernel domain temps e = empty_kernel\<lparr>
     instructions := [read_insn e],
     arg_dict := [''a'' \<mapsto> \<lparr>arg_name = ''a'', arg_shape = Some [Constant 10],
                              is_ConstantArg = False\<rparr>],
     temporary_variables := temps,
     domains := [domain],
     all_inames := {''i''},
     get_inames_domain := (\<lambda>inames. domain),
     id_to_insn := [''read_a'' \<mapsto> read_insn e]\<rparr>"

section \<open>Text of the messages\<close>

text \<open>\<^verbatim>\<open>"%d" % n\<close> and \<^verbatim>\<open>sep.join(xs)\<close>.\<close>

definition digit_char :: "nat \<Rightarrow> char" where
  "digit_char d = ''0123456789'' ! d"

fun digits :: "nat \<Rightarrow> string" where
  "digits n = (if n < 10 then [digit_char n] else digits (n div 10) @ [digit_char (n mod 10)])"

definition str_int :: "int \<Rightarrow> string" where
  "str_int i = (if i < 0 then CHR ''-'' # digits (nat (- i)) else digits (nat i))"

fun join :: "string \<Rightarrow> string list \<Rightarrow> string" where
  "join sep [] = []"
| "join sep [x] = x"
| "join sep (x # y # ys) = x @ sep @ join sep (y # ys)"

section \<open>Implemented domains\<close>

text \<open>
  The list \<^verbatim>\<open>point_axes\<close> of lines 386-390: one \<^verbatim>\<open>name=value\<close> for each name; the lookup
  of a name that the space of the point does not have raises \<^verbatim>\<open>KeyError\<close>.
\<close>

fun point_axes :: "isl_set \<Rightarrow> point \<Rightarrow> string list \<Rightarrow> error + string list" where
  "point_axes s pt [] = Inr []"
| "point_axes s pt (iname # rest) =
     (if iname \<in> set (param_names s) \<union> set (set_names s) then
        (case point_axes s pt rest of
           Inl e \<Rightarrow> Inl e
         | Inr axes \<Rightarrow> Inr ((iname @ ''='' @ str_int (pt iname)) # axes))
      else Inl (KeyError iname))"

text \<open>One round of the loop of lines 374-393: the lines it appends.\<close>

definition sample_line :: "collaborators \<Rightarrow> string list \<Rightarrow> string \<Rightarrow> isl_set \<Rightarrow> error + string list" where
  "sample_line c names kind diff_set =
     (case sample_point c (coalesce diff_set) of
        None \<Rightarrow> Inr []
      | Some pt \<Rightarrow>
          (case point_axes (coalesce diff_set) pt names of
             Inl e \<Rightarrow> Inl e
           | Inr axes \<Rightarrow> Inr [''sample point '' @ kind @ '': '' @ join '', '' axes]))"

definition print_code :: "string option \<Rightarrow> printed list" where
  "print_code code =
     (case code of
        None \<Rightarrow> []
      | Some text \<Rightarrow>
          [Line (replicate 79 CHR ''-''), Line ''CODE:'', Line (replicate 79 CHR ''-''),
           Highlighted_code text, Line (replicate 79 CHR ''-'')])"

text \<open>Lines 346-354 and 356-360: the two sets that are compared, before the last alignment.\<close>

definition insn_impl_domain :: "kernel \<Rightarrow> instruction \<Rightarrow> isl_set \<Rightarrow> isl_set list \<Rightarrow> isl_set" where
  "insn_impl_domain k insn d0 ds =
     (let pieces = foldl union_set d0 ds;
          assumption_non_param = from_params (assumptions k);
          (assumptions', aligned) = align_two assumption_non_param pieces
      in project_out_except (intersect aligned assumptions') (set (insn_inames insn)))"

definition aligned_insn_domain :: "kernel \<Rightarrow> instruction \<Rightarrow> isl_set \<times> isl_set" where
  "aligned_insn_domain k insn =
     align_two (from_params (assumptions k)) (get_inames_domain k (set (insn_inames insn)))"

definition desired_domain :: "kernel \<Rightarrow> instruction \<Rightarrow> isl_set" where
  "desired_domain k insn =
     (case aligned_insn_domain k insn of
        (assumptions', insn_domain) \<Rightarrow>
          project_out_except (intersect insn_domain assumptions') (set (insn_inames insn)))"

text \<open>
  The body of the loop of \<^verbatim>\<open>check_implemented_domains\<close> for one entry of the dictionary.
  When it raises, it gives what was printed before together with the error.
\<close>

definition implemented_domains_entry ::
  "collaborators \<Rightarrow> kernel \<Rightarrow> string option \<Rightarrow> string \<times> isl_set list
     \<Rightarrow> (printed list \<times> error) + unit" where
  "implemented_domains_entry c k code entry =
     (case entry of (i, idomains) \<Rightarrow>
        (case id_to_insn k i of
           None \<Rightarrow> Inl ([], KeyError i)
         | Some insn \<Rightarrow>
             (case idomains of
                [] \<Rightarrow> Inl ([], AssertionError)
              | d0 # ds \<Rightarrow>
                  (case align_two (insn_impl_domain k insn d0 ds) (desired_domain k insn) of
                     (impl, desired) \<Rightarrow>
                       if \<not> is_equal impl desired then
                         (let i_minus_d = subtract impl desired;
                              d_minus_i = subtract desired impl;
                              parameter_inames = param_names (snd (aligned_insn_domain k insn));
                              names = remdups (insn_inames insn @ parameter_inames)
                          in case sample_line c names ''implemented, but not desired'' i_minus_d of
                               Inl e \<Rightarrow> Inl ([], e)
                             | Inr lines1 \<Rightarrow>
                                 (case sample_line c names ''desired, but not implemented'' d_minus_i of
                                    Inl e \<Rightarrow> Inl ([], e)
                                  | Inr lines2 \<Rightarrow>
                                      Inl (print_code code,
                                           DomainsDoNotMatch i impl desired (lines1 @ lines2))))
                       else Inr ()))))"

text \<open>
  The dictionary \<^verbatim>\<open>implemented_domains\<close> is the list of its items in the order
  \<^verbatim>\<open>iteritems()\<close> yields them.
\<close>

definition check_implemented_domains ::
  "collaborators \<Rightarrow> kernel \<Rightarrow> (string \<times> isl_set list) list \<Rightarrow> string option
     \<Rightarrow> printed list \<times> (error + bool)" where
  "check_implemented_domains c k implemented_domains code =
     (case for_each (implemented_domains_entry c k code) implemented_domains of
        Inl (out, e) \<Rightarrow> (out, Inl e)
      | Inr u \<Rightarrow> ([], Inr True))"

section \<open>Advisory checks\<close>

type_synonym msgs = "(int \<times> string) list"

text \<open>The loop of lines 443-445; \<^verbatim>\<open>max_work_item_sizes[i]\<close> raises when \<open>i\<close> is out of range.\<close>

fun axis_msgs :: "int list \<Rightarrow> int list \<Rightarrow> nat \<Rightarrow> error + msgs" where
  "axis_msgs [] sizes i = Inr []"
| "axis_msgs (l # ls) sizes i =
     (if i < length sizes then
        (case axis_msgs ls sizes (Suc i) of
           Inl e \<Rightarrow> Inl e
         | Inr m \<Rightarrow>
             Inr ((if l > sizes ! i then [(5, ''group axis '' @ str_int (int i) @ '' too big'')]
                   else []) @ m))
      else Inl IndexError)"

text \<open>\<^verbatim>\<open>except UnknownVariableError, name\<close>: the name when the error is of that class.\<close>

definition except_UnknownVariableError :: "error \<Rightarrow> string option" where
  "except_UnknownVariableError e =
     (case e of UnknownVariableError name \<Rightarrow> Some name | _ \<Rightarrow> None)"

definition unknown_variable_msg :: "string \<Rightarrow> msgs" where
  "unknown_variable_msg name =
     [(1, ''could not check axis bounds because no value ''
          @ ''for variable '' @ [CHR 0x27] @ name @ [CHR 0x27]
          @ '' was passed to check_kernels()'')]"

text \<open>Lines 435-449: the \<^verbatim>\<open>try\<close> statement with its \<^verbatim>\<open>except\<close> and \<^verbatim>\<open>else\<close> clauses.\<close>

definition grid_msgs :: "collaborators \<Rightarrow> kernel \<Rightarrow> (string \<rightharpoonup> int) \<Rightarrow> error + msgs" where
  "grid_msgs c k parameters =
     (case evaluate c (group_size k) parameters of
        Inl e \<Rightarrow>
          (case except_UnknownVariableError e of
             Some name \<Rightarrow> Inr (unknown_variable_msg name)
           | None \<Rightarrow> Inl e)
      | Inr glens \<Rightarrow>
          (case evaluate c (local_size k) parameters of
             Inl e \<Rightarrow>
               (case except_UnknownVariableError e of
                  Some name \<Rightarrow> Inr (unknown_variable_msg name)
                | None \<Rightarrow> Inl e)
           | Inr llens \<Rightarrow>
               (case axis_msgs llens (max_work_item_sizes (kernel_device k)) 0 of
                  Inl e \<Rightarrow> Inl e
                | Inr m \<Rightarrow>
                    Inr (m @ (if prod_list llens > max_work_group_size (kernel_device k)
                              then [(5, ''work group too big'')] else [])))))"

definition max_severity :: "msgs \<Rightarrow> int" where
  "max_severity ms = fold (\<lambda>(sev, msg) m. max sev m) ms 0"

definition get_problems ::
  "collaborators \<Rightarrow> kernel \<Rightarrow> (string \<rightharpoonup> int) \<Rightarrow> error + (int \<times> msgs)" where
  "get_problems c k parameters =
     (let dev = kernel_device k;
          msgs1 = (if max (length (group_size k)) (length (local_size k))
                        > max_work_item_dimensions dev
                   then [(5, ''too many work item dimensions'')] else [])
      in case grid_msgs c k parameters of
           Inl e \<Rightarrow> Inl e
         | Inr msgs2 \<Rightarrow>
             (let msgs3 = (if local_mem_use k > usable_local_mem_size dev then
                             (if local_mem_type_is_LOCAL dev then
                                [(5, ''using too much local memory'')]
                              else [(4, ''using more local memory than available--''
                                         @ ''possibly OK due to cache nature'')])
                           else []);
                  const_arg_count = length (filter is_ConstantArg (args k));
                  msgs4 = (if const_arg_count > max_constant_args dev
                           then [(5, ''too many constant arguments'')] else []);
                  msgs = msgs1 @ msgs2 @ msgs3 @ msgs4
              in Inr (max_severity msgs, msgs)))"

text \<open>A kernel that needs more local memory than the example device has.\<close>

definition big_local_mem_kernel :: kernel where
  "big_local_mem_kernel = empty_kernel\<lparr>local_mem_use := 20000\<rparr>"

section \<open>Vocabulary of the domain comparison\<close>

text \<open>
  The two sets in the words of section 4.9 of the specification, as sets of points: the
  union of the pieces, and the domain of the instruction, each cut with the assumptions
  and projected onto the inames of the instruction. Projecting removes the set
  dimensions \<open>dims\<close> that are no inames of the instruction; the pieces have the set
  dimensions of the first piece. They are compared with what the code computes.
\<close>

definition project_onto :: "string list \<Rightarrow> string set \<Rightarrow> point set \<Rightarrow> point set" where
  "project_onto dims inames S = {pt. \<exists>q \<in> S. \<forall>x. x \<notin> set dims - inames \<longrightarrow> pt x = q x}"

definition implemented_projected :: "kernel \<Rightarrow> instruction \<Rightarrow> isl_set \<Rightarrow> isl_set list \<Rightarrow> point set" where
  "implemented_projected k insn d0 ds =
     project_onto (set_names d0) (set (insn_inames insn))
       ((\<Union>d \<in> set (d0 # ds). points d) \<inter> points (assumptions k))"

definition desired_projected :: "kernel \<Rightarrow> instruction \<Rightarrow> point set" where
  "desired_projected k insn =
     project_onto (set_names (get_inames_domain k (set (insn_inames insn))))
       (set (insn_inames insn))
       (points (get_inames_domain k (set (insn_inames insn))) \<inter> points (assumptions k))"

text \<open>The entry names an instruction, has a piece, and its two sets are equal.\<close>

definition entry_matches :: "kernel \<Rightarrow> string \<times> isl_set list \<Rightarrow> bool" where
  "entry_matches k entry =
     (case entry of (i, pieces) \<Rightarrow>
        (\<exists>insn d0 ds. id_to_insn k i = Some insn \<and> pieces = d0 # ds
           \<and> implemented_projected k insn d0 ds = desired_projected k insn))"

text \<open>
  \<^verbatim>\<open>sample_point\<close> does on the set \<open>S\<close> what isl promises: the void point exactly for the
  empty set, and otherwise a point of the set.
\<close>

definition sample_sound_on :: "collaborators \<Rightarrow> point set \<Rightarrow> bool" where
  "sample_sound_on c S =
     (\<forall>s. points s = S \<longrightarrow>
        (case sample_point c s of None \<Rightarrow> S = {} | Some pt \<Rightarrow> pt \<in> S))"

text \<open>The names whose values a sample line lists (line 388).\<close>

definition sample_names :: "kernel \<Rightarrow> instruction \<Rightarrow> string list" where
  "sample_names k insn =
     remdups (insn_inames insn @ param_names (snd (aligned_insn_domain k insn)))"

text \<open>
  The lines reported for one side of the comparison: none for an empty difference, and
  otherwise one line with the \<^verbatim>\<open>name=value\<close> assignments of a point of the difference.
\<close>

definition witness_lines :: "string list \<Rightarrow> string \<Rightarrow> point set \<Rightarrow> string list \<Rightarrow> bool" where
  "witness_lines names kind S lines =
     (if S = {} then lines = []
      else \<exists>pt \<in> S. lines = [''sample point '' @ kind @ '': ''
                                @ join '', '' (map (\<lambda>n. n @ ''='' @ str_int (pt n)) names)])"

text \<open>
  The domain-equivalence scenario: the set \<open>i = n\<close>, and collaborators whose sample of a
  set is the point with every coordinate 9 when the set has it.
\<close>

definition i_equals :: "int \<Rightarrow> isl_set" where
  "i_equals n = \<lparr>param_names = [], set_names = [''i''], points = {pt. pt ''i'' = n}\<rparr>"

definition sampling_nine :: collaborators where
  "sampling_nine = abstaining\<lparr>sample_point :=
     (\<lambda>s. if (\<lambda>x. 9) \<in> points s then Some (\<lambda>x. 9) else None)\<rparr>"

section \<open>Verification\<close>

subsection \<open>Iteration that stops at the first error\<close>

lemma for_each_Inr_iff: "for_each body xs = Inr () \<longleftrightarrow> (\<forall>x \<in> set xs. body x = Inr ())"
  by (induction xs) (auto split: sum.splits)

lemma for_each_first_error:
  "\<forall>x \<in> set pre. body x = Inr () \<Longrightarrow> body x = Inl e \<Longrightarrow> for_each body (pre @ x # post) = Inl e"
  by (induction pre) (auto split: sum.splits)

lemma for_each_Inl_D:
  "for_each body xs = Inl e \<Longrightarrow>
   \<exists>pre x post. xs = pre @ x # post \<and> (\<forall>y \<in> set pre. body y = Inr ()) \<and> body x = Inl e"
proof (induction xs)
  case Nil
  then show ?case by simp
next
  case (Cons a xs)
  show ?case
  proof (cases "body a")
    case (Inl e')
    with Cons.prems have "e' = e" by simp
    with Inl have "a # xs = [] @ a # xs \<and> (\<forall>y \<in> set []. body y = Inr ()) \<and> body a = Inl e"
      by simp
    then show ?thesis by blast
  next
    case (Inr u)
    with Cons.prems have "for_each body xs = Inl e" by simp
    from Cons.IH [OF this] obtain pre x post
      where "xs = pre @ x # post" "\<forall>y \<in> set pre. body y = Inr ()" "body x = Inl e"
      by blast
    with Inr have "a # xs = (a # pre) @ x # post \<and> (\<forall>y \<in> set (a # pre). body y = Inr ()) \<and> body x = Inl e"
      by simp
    then show ?thesis by blast
  qed
qed

subsection \<open>The race scenario as an input\<close>

lemma race_kernel_simps:
  "instructions (race_kernel loc idx) = [race_insn idx]"
  "iname_to_tag (race_kernel loc idx) = [''l'' \<mapsto> LocalAxis 0, ''p'' \<mapsto> Vector]"
  "temporary_variables (race_kernel loc idx) =
     [''t'' \<mapsto> \<lparr>tv_name = ''t'', tv_shape = None, is_local = loc\<rparr>]"
  "all_inames (race_kernel loc idx) = {''l'', ''p''}"
  "arg_dict (race_kernel loc idx) = Map.empty"
  by (simp_all add: race_kernel_def empty_kernel_def)

lemma race_insn_simps:
  "insn_id (race_insn idx) = ''write_t''"
  "assignee_var_name (race_insn idx) = ''t''"
  "assignee_indices (race_insn idx) = idx"
  "insn_inames (race_insn idx) = [''l'', ''p'']"
  by (simp_all add: race_insn_def insn_inames_def)

lemma race_write_index_p:
  "write_index_inames (race_kernel loc [Variable ''p'']) (race_insn [Variable ''p'']) = {''p''}"
  by (simp add: write_index_inames_def depmap_tuple_def race_kernel_simps race_insn_simps)

lemma race_write_index_pl:
  "write_index_inames (race_kernel loc [Variable ''p'', Variable ''l''])
     (race_insn [Variable ''p'', Variable ''l'']) = {''p'', ''l''}"
  by (auto simp: write_index_inames_def depmap_tuple_def race_kernel_simps race_insn_simps)

lemma race_tags:
  "isinstance (iname_to_tag (race_kernel loc idx) ''l'') is_ParallelTag"
  "\<not> isinstance (iname_to_tag (race_kernel loc idx) ''l'') is_GroupIndexTag"
  "isinstance (iname_to_tag (race_kernel loc idx) ''l'') is_LocalIndexTagBase"
  "isinstance (iname_to_tag (race_kernel loc idx) ''p'') is_ParallelTag"
  "\<not> isinstance (iname_to_tag (race_kernel loc idx) ''p'') is_GroupIndexTag"
  "\<not> isinstance (iname_to_tag (race_kernel loc idx) ''p'') is_LocalIndexTagBase"
  by (simp_all add: race_kernel_simps isinstance_def LocalAxis_def Vector_def)

lemma race_temp:
  "assignee_var_name (race_insn idx) \<notin> dom (arg_dict (race_kernel loc idx))
   \<and> temporary_variables (race_kernel loc idx) (assignee_var_name (race_insn idx))
       = Some \<lparr>tv_name = ''t'', tv_shape = None, is_local = loc\<rparr>"
  by (simp add: race_kernel_simps race_insn_simps)

lemma race_raceable_local:
  "{i \<in> set (insn_inames (race_insn idx)).
       isinstance (iname_to_tag (race_kernel loc idx) i) is_ParallelTag
       \<and> \<not> isinstance (iname_to_tag (race_kernel loc idx) i) is_GroupIndexTag}
    = {''l'', ''p''}"
  using race_tags [of loc idx] by (auto simp: race_insn_simps)

lemma race_raceable_private:
  "{i \<in> set (insn_inames (race_insn idx)).
       isinstance (iname_to_tag (race_kernel loc idx) i) is_ParallelTag
       \<and> \<not> isinstance (iname_to_tag (race_kernel loc idx) i) is_GroupIndexTag
       \<and> \<not> isinstance (iname_to_tag (race_kernel loc idx) i) is_LocalIndexTagBase}
    = {''p''}"
  using race_tags [of loc idx] by (auto simp: race_insn_simps)

subsection \<open>Write races\<close>

lemma for_each_append:
  "for_each body (xs @ ys) =
     (case for_each body xs of Inl e \<Rightarrow> Inl e | Inr u \<Rightarrow> for_each body ys)"
  by (induction xs) (auto split: sum.splits)

lemma strip_vars_all_Variables:
  "\<forall>e \<in> set es. \<exists>n. e = Variable n \<Longrightarrow> strip_vars es = Inr (var_names es)"
  by (induction es) (auto simp: strip_var_def)

lemma strip_vars_plain:
  "plain_write_index insn \<Longrightarrow>
   strip_vars (depmap_tuple (assignee_indices insn))
     = Inr (var_names (depmap_tuple (assignee_indices insn)))"
  unfolding plain_write_index_def by (rule strip_vars_all_Variables)

text \<open>
  Once every dependency of the write index is a variable and the write index refers only
  to inames of the instruction, the outcome of the loop body is decided by the raceable
  list alone.
\<close>

lemma write_race_insn_unfold:
  assumes "plain_write_index insn"
    and "write_index_inames k insn \<subseteq> set (insn_inames insn)"
  shows "write_race_insn k insn =
     (case raceable_parallel_insn_inames k insn of
        Inl e \<Rightarrow> Inl e
      | Inr raceable \<Rightarrow>
          if set raceable - write_index_inames k insn \<noteq> {} then
            Inl (WriteRaceConditionError (insn_id insn)
                   (filter (\<lambda>n. n \<notin> write_index_inames k insn) raceable))
          else Inr ())"
proof -
  have eq: "set (filter (\<lambda>n. n \<in> all_inames k) (var_names (depmap_tuple (assignee_indices insn))))
      = write_index_inames k insn"
    by (auto simp: write_index_inames_def)
  have ne: "\<And>xs. (filter (\<lambda>n. n \<notin> write_index_inames k insn) xs \<noteq> []) =
      (set xs - write_index_inames k insn \<noteq> {})"
    by (auto simp: filter_empty_conv)
  show ?thesis
    using assms(2)
    by (simp add: write_race_insn_def strip_vars_plain [OF assms(1)] eq ne Let_def
          del: set_filter split: sum.splits)
qed

text \<open>The loop body looks at the instruction it is given, not at the list of instructions.\<close>

lemma raceable_instructions:
  "raceable_parallel_insn_inames (k\<lparr>instructions := xs\<rparr>) insn
     = raceable_parallel_insn_inames k insn"
  by (simp add: raceable_parallel_insn_inames_def
      split: option.splits is_local_value.splits)

lemma write_race_insn_instructions:
  "write_race_insn (k\<lparr>instructions := xs\<rparr>) = write_race_insn k"
proof (rule ext)
  fix insn
  show "write_race_insn (k\<lparr>instructions := xs\<rparr>) insn = write_race_insn k insn"
    unfolding write_race_insn_def raceable_instructions
    by (simp split: sum.splits)
qed

text \<open>When the instructions before it pass, the loop reaches the instruction.\<close>

lemma check_for_write_races_at:
  assumes "instructions k = pre @ insn # post"
    and "check_for_write_races (k\<lparr>instructions := pre\<rparr>) = Inr ()"
  shows "check_for_write_races k =
     (case write_race_insn k insn of
        Inl e \<Rightarrow> Inl e
      | Inr u \<Rightarrow> check_for_write_races (k\<lparr>instructions := post\<rparr>))"
proof -
  have "for_each (write_race_insn k) pre = Inr ()"
    using assms(2) by (simp add: check_for_write_races_def write_race_insn_instructions)
  then show ?thesis
    by (simp add: check_for_write_races_def assms(1) for_each_append
        write_race_insn_instructions split: sum.splits)
qed

text \<open>
  Claim C1, as stated, at an instruction that writes the local temporary \<open>t\<close> at the
  index \<open>b[p]\<close> and runs across the local-axis iname \<open>l\<close> and the parallel iname \<open>p\<close>.
  The only iname the index refers to is \<open>p\<close>, an iname of the instruction, and the
  raceable set less \<open>p\<close> is \<open>{l}\<close>; but the dependency mapper hands the subscript
  \<open>b[p]\<close> itself to \<^verbatim>\<open>strip_var\<close>, whose assertion (line 120) fails before anything is
  classified. The same happens when \<open>t\<close> is private.
\<close>

theorem write_race_subscript_index_counterexample:
  "get_dependencies [Subscript (Variable ''b'') [Variable ''p'']]
       \<inter> all_inames (race_kernel Is_True [Subscript (Variable ''b'') [Variable ''p'']])
     \<subseteq> set (insn_inames (race_insn [Subscript (Variable ''b'') [Variable ''p'']]))
   \<and> check_for_write_races (race_kernel Is_True [Subscript (Variable ''b'') [Variable ''p'']])
     = Inl AssertionError
   \<and> check_for_write_races (race_kernel Is_False [Subscript (Variable ''b'') [Variable ''p'']])
     = Inl AssertionError"
  by (simp add: get_dependencies_def race_kernel_simps race_insn_simps
      check_for_write_races_def write_race_insn_def depmap_tuple_def strip_var_def)

text \<open>
  Claim C1, amended. Take an instruction that the loop of \<^verbatim>\<open>check_for_write_races\<close>
  reaches (the instructions before it pass), whose write index has only variables as
  dependencies (no subscript inside the index), and let the inames referenced in the
  write index all be inames of the instruction. Then the raceable set is
  \<^item> for a target that is a kernel argument: the inames of the instruction with a parallel tag;
  \<^item> for a temporary with \<^verbatim>\<open>is_local is True\<close>: those of them whose tag is no group axis;
  \<^item> for a temporary with \<^verbatim>\<open>is_local is False\<close>: those whose tag is neither a group axis
    nor of the local-axis family (\<^verbatim>\<open>LocalIndexTagBase\<close>);
  \<^item> and for a temporary whose locality is neither, the check fails with the usage error
    naming the temporary.
  In the first three cases the check raises \<^verbatim>\<open>WriteRaceConditionError\<close> for this
  instruction exactly when the raceable set minus the inames of the write index is
  non-empty, and the error names that set; when the difference is empty, the instruction
  raises nothing and the loop goes on with the instructions after it. (A name that is
  both an argument and a temporary is treated as the argument, line 132.)
\<close>

theorem write_race_classification:
  assumes "instructions k = pre @ insn # post"
    and "check_for_write_races (k\<lparr>instructions := pre\<rparr>) = Inr ()"
    and "plain_write_index insn"
    and "write_index_inames k insn \<subseteq> set (insn_inames insn)"
  shows
   "(assignee_var_name insn \<in> dom (arg_dict k) \<longrightarrow>
       (let R = {i \<in> set (insn_inames insn). isinstance (iname_to_tag k i) is_ParallelTag}
        in (R - write_index_inames k insn \<noteq> {} \<longrightarrow>
              write_race_reported k (insn_id insn) (R - write_index_inames k insn))
         \<and> (R - write_index_inames k insn = {} \<longrightarrow>
              check_for_write_races k = check_for_write_races (k\<lparr>instructions := post\<rparr>))))
  \<and> (\<forall>tv. assignee_var_name insn \<notin> dom (arg_dict k)
         \<and> temporary_variables k (assignee_var_name insn) = Some tv \<longrightarrow>
       (is_local tv = Is_True \<longrightarrow>
         (let R = {i \<in> set (insn_inames insn). isinstance (iname_to_tag k i) is_ParallelTag
                     \<and> \<not> isinstance (iname_to_tag k i) is_GroupIndexTag}
          in (R - write_index_inames k insn \<noteq> {} \<longrightarrow>
                write_race_reported k (insn_id insn) (R - write_index_inames k insn))
           \<and> (R - write_index_inames k insn = {} \<longrightarrow>
                check_for_write_races k = check_for_write_races (k\<lparr>instructions := post\<rparr>))))
     \<and> (is_local tv = Is_False \<longrightarrow>
         (let R = {i \<in> set (insn_inames insn). isinstance (iname_to_tag k i) is_ParallelTag
                     \<and> \<not> isinstance (iname_to_tag k i) is_GroupIndexTag
                     \<and> \<not> isinstance (iname_to_tag k i) is_LocalIndexTagBase}
          in (R - write_index_inames k insn \<noteq> {} \<longrightarrow>
                write_race_reported k (insn_id insn) (R - write_index_inames k insn))
           \<and> (R - write_index_inames k insn = {} \<longrightarrow>
                check_for_write_races k = check_for_write_races (k\<lparr>instructions := post\<rparr>))))
     \<and> (is_local tv = Is_Neither \<longrightarrow>
           check_for_write_races k = Inl (UndecidedLocal (tv_name tv))))"
proof -
  note at = check_for_write_races_at [OF assms(1) assms(2)]
  note u = write_race_insn_unfold [OF assms(3) assms(4)]
  have arg: "assignee_var_name insn \<in> dom (arg_dict k) \<Longrightarrow>
      raceable_parallel_insn_inames k insn =
        Inr (filter (\<lambda>i. isinstance (iname_to_tag k i) is_ParallelTag) (insn_inames insn))"
    by (simp add: raceable_parallel_insn_inames_def)
  have tmp: "\<And>tv. assignee_var_name insn \<notin> dom (arg_dict k) \<Longrightarrow>
      temporary_variables k (assignee_var_name insn) = Some tv \<Longrightarrow>
      raceable_parallel_insn_inames k insn =
        (case is_local tv of
           Is_True \<Rightarrow> Inr (filter (\<lambda>i. isinstance (iname_to_tag k i) is_ParallelTag
                              \<and> \<not> isinstance (iname_to_tag k i) is_GroupIndexTag) (insn_inames insn))
         | Is_False \<Rightarrow> Inr (filter (\<lambda>i. isinstance (iname_to_tag k i) is_ParallelTag
                              \<and> \<not> isinstance (iname_to_tag k i) is_GroupIndexTag
                              \<and> \<not> isinstance (iname_to_tag k i) is_LocalIndexTagBase) (insn_inames insn))
         | Is_Neither \<Rightarrow> Inl (UndecidedLocal (tv_name tv)))"
    by (simp add: raceable_parallel_insn_inames_def)
  show ?thesis
    unfolding write_race_reported_def Let_def at
    apply (intro conjI impI allI)
    subgoal using arg by (auto simp: u)
    subgoal using arg by (auto simp: u)
    subgoal for tv using tmp [of tv] by (auto simp: u)
    subgoal for tv using tmp [of tv] by (auto simp: u)
    subgoal for tv using tmp [of tv] by (auto simp: u)
    subgoal for tv using tmp [of tv] by (auto simp: u)
    subgoal for tv using tmp [of tv] by (simp add: u)
    done
qed

lemma race_kernel_split:
  "instructions (race_kernel loc idx) = [] @ race_insn idx # []"
  "check_for_write_races ((race_kernel loc idx)\<lparr>instructions := []\<rparr>) = Inr ()"
  by (simp_all add: race_kernel_simps check_for_write_races_def)

lemma race_plain_p: "plain_write_index (race_insn [Variable ''p''])"
  by (simp add: plain_write_index_def depmap_tuple_def race_insn_simps)

lemma race_plain_pl: "plain_write_index (race_insn [Variable ''p'', Variable ''l''])"
  by (simp add: plain_write_index_def depmap_tuple_def race_insn_simps)

theorem write_race_classification_witness:
  "write_race_reported (race_kernel Is_True [Variable ''p'']) ''write_t'' {''l''}
   \<and> check_for_write_races (race_kernel Is_False [Variable ''p'']) = Inr ()
   \<and> check_for_write_races (race_kernel Is_Neither [Variable ''p''])
       = Inl (UndecidedLocal ''t'')"
proof -
  let ?i = "race_insn [Variable ''p'']"
  have sub: "\<And>loc. write_index_inames (race_kernel loc [Variable ''p'']) ?i
      \<subseteq> set (insn_inames ?i)"
    by (simp add: race_write_index_p race_insn_simps)
  note inst = write_race_classification [OF race_kernel_split race_plain_p sub,
      THEN conjunct2, THEN spec, THEN mp,
      OF race_temp, unfolded Let_def race_raceable_local race_raceable_private
        race_write_index_p race_insn_simps(1) race_kernel_split(2)]
  have d: "{''l'', ''p''} - {''p''} = {''l''}"
    by auto
  have a: "write_race_reported (race_kernel Is_True [Variable ''p'']) ''write_t'' {''l''}"
    using inst [of Is_True] by (simp add: d)
  have b: "check_for_write_races (race_kernel Is_False [Variable ''p'']) = Inr ()"
    using inst [of Is_False] by simp
  have c: "check_for_write_races (race_kernel Is_Neither [Variable ''p''])
       = Inl (UndecidedLocal ''t'')"
    using inst [of Is_Neither] by simp
  from a b c show ?thesis by blast
qed

subsection \<open>The race scenario\<close>

text \<open>
  Claim C2, as stated, at the scenario of the specification: the temporary is private
  (\<^verbatim>\<open>is_local is False\<close>), the instruction runs across the local-axis iname \<open>l\<close> and the
  parallel iname \<open>p\<close>, and the write index is \<open>p\<close> alone. Lines 150-158 leave every
  iname of the local-axis family out of the raceable set of a private temporary, so
  nothing is raised.
\<close>

theorem private_race_scenario_counterexample:
  "check_for_write_races (race_kernel Is_False [Variable ''p'']) = Inr ()
   \<and> \<not> raises_write_race_naming (race_kernel Is_False [Variable ''p''])
         (race_insn [Variable ''p'']) {''l''}"
proof -
  let ?k = "race_kernel Is_False [Variable ''p'']"
  let ?i = "race_insn [Variable ''p'']"
  have sub: "write_index_inames ?k ?i \<subseteq> set (insn_inames ?i)"
    by (simp add: race_write_index_p race_insn_simps)
  have r: "raceable_parallel_insn_inames ?k ?i = Inr [''p'']"
    by (simp add: raceable_parallel_insn_inames_def race_kernel_simps race_insn_simps
        isinstance_def LocalAxis_def Vector_def)
  have ok: "write_race_insn ?k ?i = Inr ()"
    by (simp add: write_race_insn_unfold [OF race_plain_p sub] r race_write_index_p)
  then show ?thesis
    by (simp add: check_for_write_races_def race_kernel_simps raises_write_race_naming_def)
qed

text \<open>
  Claim C2, amended. The scenario raises for a temporary that is local
  (\<^verbatim>\<open>is_local is True\<close>): when the instruction runs across exactly a parallel local-axis
  iname \<open>l\<close> and another parallel iname \<open>p\<close>, a write index that refers to \<open>p\<close> alone
  raises \<^verbatim>\<open>WriteRaceConditionError\<close> naming \<open>{l}\<close>, and a write index that refers to both
  passes. For a private temporary the index \<open>p\<close> alone already passes. The write index
  is made of variables, as in the scenario, so that the assertion of line 120 holds.
\<close>

theorem local_temporary_race_scenario:
  assumes plain: "plain_write_index insn"
    and notarg: "assignee_var_name insn \<notin> dom (arg_dict k)"
    and tv: "temporary_variables k (assignee_var_name insn) = Some tv"
    and inames: "set (insn_inames insn) = {l, p}" and lp: "l \<noteq> p"
    and l_par: "isinstance (iname_to_tag k l) is_ParallelTag"
    and l_loc: "isinstance (iname_to_tag k l) is_LocalIndexTagBase"
    and l_grp: "\<not> isinstance (iname_to_tag k l) is_GroupIndexTag"
    and p_par: "isinstance (iname_to_tag k p) is_ParallelTag"
  shows "(is_local tv = Is_True \<and> write_index_inames k insn = {p}
            \<longrightarrow> raises_write_race_naming k insn {l})
       \<and> (is_local tv = Is_True \<and> write_index_inames k insn = {p, l}
            \<longrightarrow> write_race_insn k insn = Inr ())
       \<and> (is_local tv = Is_False \<and> write_index_inames k insn = {p}
            \<longrightarrow> write_race_insn k insn = Inr ())"
proof (intro conjI impI)
  assume a: "is_local tv = Is_True \<and> write_index_inames k insn = {p}"
  then have sub: "write_index_inames k insn \<subseteq> set (insn_inames insn)"
    using inames by simp
  have r: "raceable_parallel_insn_inames k insn =
      Inr (filter (\<lambda>i. isinstance (iname_to_tag k i) is_ParallelTag
                     \<and> \<not> isinstance (iname_to_tag k i) is_GroupIndexTag) (insn_inames insn))"
    using notarg tv a by (simp add: raceable_parallel_insn_inames_def)
  have d: "{i \<in> set (insn_inames insn). isinstance (iname_to_tag k i) is_ParallelTag
                     \<and> \<not> isinstance (iname_to_tag k i) is_GroupIndexTag} - {p} = {l}"
    using inames lp l_par l_grp by auto
  show "raises_write_race_naming k insn {l}"
    unfolding raises_write_race_naming_def write_race_insn_unfold [OF plain sub] r
    using a d by auto
next
  assume a: "is_local tv = Is_True \<and> write_index_inames k insn = {p, l}"
  then have sub: "write_index_inames k insn \<subseteq> set (insn_inames insn)"
    using inames by auto
  have r: "raceable_parallel_insn_inames k insn =
      Inr (filter (\<lambda>i. isinstance (iname_to_tag k i) is_ParallelTag
                     \<and> \<not> isinstance (iname_to_tag k i) is_GroupIndexTag) (insn_inames insn))"
    using notarg tv a by (simp add: raceable_parallel_insn_inames_def)
  show "write_race_insn k insn = Inr ()"
    unfolding write_race_insn_unfold [OF plain sub] r
    using a inames by auto
next
  assume a: "is_local tv = Is_False \<and> write_index_inames k insn = {p}"
  then have sub: "write_index_inames k insn \<subseteq> set (insn_inames insn)"
    using inames by simp
  have r: "raceable_parallel_insn_inames k insn =
      Inr (filter (\<lambda>i. isinstance (iname_to_tag k i) is_ParallelTag
                     \<and> \<not> isinstance (iname_to_tag k i) is_GroupIndexTag
                     \<and> \<not> isinstance (iname_to_tag k i) is_LocalIndexTagBase) (insn_inames insn))"
    using notarg tv a by (simp add: raceable_parallel_insn_inames_def)
  show "write_race_insn k insn = Inr ()"
    unfolding write_race_insn_unfold [OF plain sub] r
    using a inames l_loc by auto
qed

theorem local_temporary_race_scenario_witness:
  "(\<exists>names. check_for_write_races (race_kernel Is_True [Variable ''p''])
        = Inl (WriteRaceConditionError ''write_t'' names) \<and> set names = {''l''})
   \<and> check_for_write_races (race_kernel Is_True [Variable ''p'', Variable ''l'']) = Inr ()
   \<and> check_for_write_races (race_kernel Is_False [Variable ''p'']) = Inr ()"
proof -
  have ne: "''l'' \<noteq> ''p''" by simp
  have s: "\<And>idx. set (insn_inames (race_insn idx)) = {''l'', ''p''}"
    by (simp add: race_insn_simps)
  have t: "\<And>loc idx. plain_write_index (race_insn idx) \<Longrightarrow>
       (is_local \<lparr>tv_name = ''t'', tv_shape = None, is_local = loc\<rparr> = Is_True
          \<and> write_index_inames (race_kernel loc idx) (race_insn idx) = {''p''}
            \<longrightarrow> raises_write_race_naming (race_kernel loc idx) (race_insn idx) {''l''})
       \<and> (is_local \<lparr>tv_name = ''t'', tv_shape = None, is_local = loc\<rparr> = Is_True
          \<and> write_index_inames (race_kernel loc idx) (race_insn idx) = {''p'', ''l''}
            \<longrightarrow> write_race_insn (race_kernel loc idx) (race_insn idx) = Inr ())
       \<and> (is_local \<lparr>tv_name = ''t'', tv_shape = None, is_local = loc\<rparr> = Is_False
          \<and> write_index_inames (race_kernel loc idx) (race_insn idx) = {''p''}
            \<longrightarrow> write_race_insn (race_kernel loc idx) (race_insn idx) = Inr ())"
    by (rule local_temporary_race_scenario [OF _ race_temp [THEN conjunct1]
      race_temp [THEN conjunct2] s ne race_tags(1) race_tags(3) race_tags(2) race_tags(4)])
  have a: "raises_write_race_naming (race_kernel Is_True [Variable ''p''])
      (race_insn [Variable ''p'']) {''l''}"
    using t [OF race_plain_p, of Is_True] by (simp add: race_write_index_p)
  have b: "write_race_insn (race_kernel Is_True [Variable ''p'', Variable ''l''])
        (race_insn [Variable ''p'', Variable ''l'']) = Inr ()"
    using t [OF race_plain_pl, of Is_True] by (simp add: race_write_index_pl)
  have c: "write_race_insn (race_kernel Is_False [Variable ''p''])
        (race_insn [Variable ''p'']) = Inr ()"
    using t [OF race_plain_p, of Is_False] by (simp add: race_write_index_p)
  from a obtain names where n: "write_race_insn (race_kernel Is_True [Variable ''p''])
      (race_insn [Variable ''p'']) = Inl (WriteRaceConditionError ''write_t'' names)"
    and sn: "set names = {''l''}"
    unfolding raises_write_race_naming_def race_insn_simps by blast
  have a': "check_for_write_races (race_kernel Is_True [Variable ''p''])
        = Inl (WriteRaceConditionError ''write_t'' names)"
    by (simp add: check_for_write_races_def race_kernel_simps n)
  have b': "check_for_write_races (race_kernel Is_True [Variable ''p'', Variable ''l'']) = Inr ()"
    by (simp add: check_for_write_races_def race_kernel_simps b)
  have c': "check_for_write_races (race_kernel Is_False [Variable ''p'']) = Inr ()"
    by (simp add: check_for_write_races_def race_kernel_simps c)
  from a' sn b' c' show ?thesis by blast
qed

subsection \<open>Double use of hardware axes\<close>

lemma set_map_filter_iff: "c \<in> set (List.map_filter f xs) \<longleftrightarrow> (\<exists>x \<in> set xs. f x = Some c)"
  by (induction xs) (auto split: option.splits)

lemma double_use_loop_step_None:
  "unique_key k x = None \<Longrightarrow>
   double_use_loop k i (x # xs) keys = double_use_loop k i xs keys"
  by (auto simp: unique_key_def split: option.splits if_splits)

lemma double_use_loop_step_Some:
  "unique_key k x = Some c \<Longrightarrow>
   double_use_loop k i (x # xs) keys =
     (if c \<in> keys then Inl (MultipleInamesTagged i (the (iname_to_tag k x)))
      else double_use_loop k i xs (insert c keys))"
  by (auto simp: unique_key_def split: option.splits if_splits)

lemma double_use_loop_ok:
  "double_use_loop k i xs keys = Inr () \<longleftrightarrow>
     distinct (List.map_filter (unique_key k) xs)
     \<and> set (List.map_filter (unique_key k) xs) \<inter> keys = {}"
proof (induction xs arbitrary: keys)
  case Nil
  then show ?case by simp
next
  case (Cons x xs)
  show ?case
  proof (cases "unique_key k x")
    case None
    show ?thesis
      unfolding double_use_loop_step_None [OF None] Cons.IH
      by (simp add: None)
  next
    case (Some c)
    show ?thesis
    proof (cases "c \<in> keys")
      case True
      then show ?thesis
        unfolding double_use_loop_step_Some [OF Some]
        by (simp add: Some)
    next
      case False
      then show ?thesis
        unfolding double_use_loop_step_Some [OF Some]
        by (simp add: Some Cons.IH) blast
    qed
  qed
qed

lemma double_use_loop_error:
  "double_use_loop k i xs keys = Inl e \<Longrightarrow>
     \<exists>x \<in> set xs. \<exists>tag. e = MultipleInamesTagged i tag \<and> iname_to_tag k x = Some tag
        \<and> is_UniqueTag tag"
proof (induction xs arbitrary: keys)
  case Nil
  then show ?case by simp
next
  case (Cons x xs)
  show ?case
  proof (cases "unique_key k x")
    case None
    have "double_use_loop k i xs keys = Inl e"
      using Cons.prems unfolding double_use_loop_step_None [OF None] .
    from Cons.IH [OF this] show ?thesis by auto
  next
    case (Some c)
    then obtain tag where tag: "iname_to_tag k x = Some tag" "is_UniqueTag tag"
      by (auto simp: unique_key_def split: option.splits if_splits)
    show ?thesis
    proof (cases "c \<in> keys")
      case True
      with tag show ?thesis
        using Cons.prems unfolding double_use_loop_step_Some [OF Some] by simp
    next
      case False
      then have "double_use_loop k i xs (insert c keys) = Inl e"
        using Cons.prems unfolding double_use_loop_step_Some [OF Some] by simp
      from Cons.IH [OF this] show ?thesis by auto
    qed
  qed
qed

lemma distinct_unique_keys:
  "distinct xs \<Longrightarrow>
   distinct (List.map_filter (unique_key k) xs) \<longleftrightarrow>
     \<not> (\<exists>a \<in> set xs. \<exists>b \<in> set xs. a \<noteq> b \<and> unique_key k a \<noteq> None
            \<and> unique_key k a = unique_key k b)"
proof (induction xs)
  case Nil
  then show ?case by simp
next
  case (Cons x xs)
  then have IH: "distinct (List.map_filter (unique_key k) xs) \<longleftrightarrow>
     \<not> (\<exists>a \<in> set xs. \<exists>b \<in> set xs. a \<noteq> b \<and> unique_key k a \<noteq> None
            \<and> unique_key k a = unique_key k b)"
    and x: "x \<notin> set xs"
    by simp_all
  show ?case
  proof (cases "unique_key k x")
    case None
    have "distinct (List.map_filter (unique_key k) (x # xs))
        = distinct (List.map_filter (unique_key k) xs)"
      by (simp add: None)
    moreover have "(\<exists>a \<in> set (x # xs). \<exists>b \<in> set (x # xs). a \<noteq> b \<and> unique_key k a \<noteq> None
            \<and> unique_key k a = unique_key k b)
       = (\<exists>a \<in> set xs. \<exists>b \<in> set xs. a \<noteq> b \<and> unique_key k a \<noteq> None
            \<and> unique_key k a = unique_key k b)"
      using None by auto
    ultimately show ?thesis using IH by simp
  next
    case (Some c)
    have "distinct (List.map_filter (unique_key k) (x # xs))
        = (\<not> (\<exists>b \<in> set xs. unique_key k b = Some c)
           \<and> distinct (List.map_filter (unique_key k) xs))"
      by (simp add: Some set_map_filter_iff)
    moreover have "(\<exists>a \<in> set (x # xs). \<exists>b \<in> set (x # xs). a \<noteq> b \<and> unique_key k a \<noteq> None
            \<and> unique_key k a = unique_key k b)
       = ((\<exists>b \<in> set xs. unique_key k b = Some c)
          \<or> (\<exists>a \<in> set xs. \<exists>b \<in> set xs. a \<noteq> b \<and> unique_key k a \<noteq> None
            \<and> unique_key k a = unique_key k b))"
      using Some x by auto
    ultimately show ?thesis using IH by simp
  qed
qed

lemma double_use_insn_ok_iff:
  "double_use_insn k insn = Inr () \<longleftrightarrow> \<not> shares_unique_key k insn"
  unfolding double_use_insn_def double_use_loop_ok shares_unique_key_def
  using distinct_unique_keys [of "insn_inames insn" k]
  by (simp add: insn_inames_def)


lemma double_use_loop_error_shared:
  "double_use_loop k i xs keys = Inl e \<Longrightarrow>
     \<exists>pre x post tag. xs = pre @ x # post \<and> e = MultipleInamesTagged i tag
        \<and> iname_to_tag k x = Some tag \<and> is_UniqueTag tag
        \<and> (key tag \<in> keys \<or> (\<exists>b \<in> set pre. unique_key k b = Some (key tag)))"
proof (induction xs arbitrary: keys)
  case Nil
  then show ?case by simp
next
  case (Cons x xs)
  show ?case
  proof (cases "unique_key k x")
    case None
    have "double_use_loop k i xs keys = Inl e"
      using Cons.prems unfolding double_use_loop_step_None [OF None] .
    from Cons.IH [OF this] obtain pre y post tag where
      "xs = pre @ y # post" "e = MultipleInamesTagged i tag" "iname_to_tag k y = Some tag"
      "is_UniqueTag tag" "key tag \<in> keys \<or> (\<exists>b \<in> set pre. unique_key k b = Some (key tag))"
      by blast
    then have "x # xs = (x # pre) @ y # post \<and> e = MultipleInamesTagged i tag
        \<and> iname_to_tag k y = Some tag \<and> is_UniqueTag tag
        \<and> (key tag \<in> keys \<or> (\<exists>b \<in> set (x # pre). unique_key k b = Some (key tag)))"
      by auto
    then show ?thesis by blast
  next
    case (Some c)
    then obtain tag where tag: "iname_to_tag k x = Some tag" "is_UniqueTag tag" "key tag = c"
      by (auto simp: unique_key_def split: option.splits if_splits)
    show ?thesis
    proof (cases "c \<in> keys")
      case True
      then have "e = MultipleInamesTagged i tag"
        using Cons.prems tag unfolding double_use_loop_step_Some [OF Some] by simp
      with tag True have "x # xs = [] @ x # xs \<and> e = MultipleInamesTagged i tag
        \<and> iname_to_tag k x = Some tag \<and> is_UniqueTag tag
        \<and> (key tag \<in> keys \<or> (\<exists>b \<in> set []. unique_key k b = Some (key tag)))"
        by simp
      then show ?thesis by blast
    next
      case False
      then have "double_use_loop k i xs (insert c keys) = Inl e"
        using Cons.prems unfolding double_use_loop_step_Some [OF Some] by simp
      from Cons.IH [OF this] obtain pre y post tag' where
        "xs = pre @ y # post" "e = MultipleInamesTagged i tag'" "iname_to_tag k y = Some tag'"
        "is_UniqueTag tag'"
        "key tag' \<in> insert c keys \<or> (\<exists>b \<in> set pre. unique_key k b = Some (key tag'))"
        by blast
      with Some have "x # xs = (x # pre) @ y # post \<and> e = MultipleInamesTagged i tag'
        \<and> iname_to_tag k y = Some tag' \<and> is_UniqueTag tag'
        \<and> (key tag' \<in> keys \<or> (\<exists>b \<in> set (x # pre). unique_key k b = Some (key tag')))"
        by auto
      then show ?thesis by blast
    qed
  qed
qed

lemma double_use_insn_error:
  assumes "double_use_insn k insn = Inl e"
  shows "\<exists>a \<in> set (insn_inames insn). \<exists>b \<in> set (insn_inames insn). \<exists>tag.
      a \<noteq> b \<and> e = MultipleInamesTagged (insn_id insn) tag \<and> iname_to_tag k a = Some tag
      \<and> is_UniqueTag tag \<and> unique_key k b = Some (key tag)"
proof -
  have "\<exists>pre x post tag. insn_inames insn = pre @ x # post
      \<and> e = MultipleInamesTagged (insn_id insn) tag
      \<and> iname_to_tag k x = Some tag \<and> is_UniqueTag tag
      \<and> (\<exists>b \<in> set pre. unique_key k b = Some (key tag))"
    using double_use_loop_error_shared [OF assms [unfolded double_use_insn_def]] by simp
  then obtain pre x post tag where xs: "insn_inames insn = pre @ x # post"
    and e: "e = MultipleInamesTagged (insn_id insn) tag"
    and t: "iname_to_tag k x = Some tag" "is_UniqueTag tag"
    and ex: "\<exists>b \<in> set pre. unique_key k b = Some (key tag)"
    by blast
  from ex obtain b where b: "b \<in> set pre" "unique_key k b = Some (key tag)"
    by blast
  have "distinct (insn_inames insn)"
    by (simp add: insn_inames_def)
  with xs b have "x \<noteq> b" by auto
  with xs b e t show ?thesis by auto
qed

text \<open>
  Claim C9. \<^verbatim>\<open>check_for_double_use_of_hw_axes\<close> passes exactly when in no instruction two
  different inames carry unique-keyed tags with equal keys; so equal keys always make it
  fail and pairwise distinct keys never do. Every failure is the double-use error; it
  names the id of an instruction and a unique-keyed tag of one of its inames whose key
  is also the key of another iname of that instruction.
\<close>

theorem double_use_verdict:
  "(check_for_double_use_of_hw_axes k = Inr ()
      \<longleftrightarrow> (\<forall>insn \<in> set (instructions k). \<not> shares_unique_key k insn))
   \<and> (\<forall>e. check_for_double_use_of_hw_axes k = Inl e \<longrightarrow>
        (\<exists>insn \<in> set (instructions k). \<exists>a \<in> set (insn_inames insn).
           \<exists>b \<in> set (insn_inames insn). \<exists>tag.
             a \<noteq> b \<and> e = MultipleInamesTagged (insn_id insn) tag
             \<and> iname_to_tag k a = Some tag \<and> is_UniqueTag tag
             \<and> unique_key k b = Some (key tag)))"
proof (intro conjI allI impI)
  show "check_for_double_use_of_hw_axes k = Inr ()
      \<longleftrightarrow> (\<forall>insn \<in> set (instructions k). \<not> shares_unique_key k insn)"
    by (simp add: check_for_double_use_of_hw_axes_def for_each_Inr_iff double_use_insn_ok_iff)
next
  fix e
  assume "check_for_double_use_of_hw_axes k = Inl e"
  from for_each_Inl_D [OF this [unfolded check_for_double_use_of_hw_axes_def]]
  obtain pre insn post where "instructions k = pre @ insn # post"
    and "double_use_insn k insn = Inl e"
    by blast
  with double_use_insn_error [of k insn e]
  show "\<exists>insn \<in> set (instructions k). \<exists>a \<in> set (insn_inames insn).
           \<exists>b \<in> set (insn_inames insn). \<exists>tag.
             a \<noteq> b \<and> e = MultipleInamesTagged (insn_id insn) tag
             \<and> iname_to_tag k a = Some tag \<and> is_UniqueTag tag
             \<and> unique_key k b = Some (key tag)"
    by auto
qed

lemma double_use_kernel_simps:
  "instructions double_use_kernel = [race_insn []]"
  "iname_to_tag double_use_kernel = [''l'' \<mapsto> LocalAxis 0, ''p'' \<mapsto> LocalAxis 0]"
  by (simp_all add: double_use_kernel_def empty_kernel_def)

theorem double_use_verdict_witness:
  "shares_unique_key double_use_kernel (race_insn [])
   \<and> check_for_double_use_of_hw_axes double_use_kernel
       = Inl (MultipleInamesTagged ''write_t'' (LocalAxis 0))
   \<and> \<not> shares_unique_key (race_kernel Is_True []) (race_insn [])
   \<and> check_for_double_use_of_hw_axes (race_kernel Is_True []) = Inr ()"
proof -
  have uk: "unique_key double_use_kernel ''l'' = Some (AxisKey ''l'' 0)"
    "unique_key double_use_kernel ''p'' = Some (AxisKey ''l'' 0)"
    by (simp_all add: unique_key_def double_use_kernel_simps LocalAxis_def)
  have sh: "shares_unique_key double_use_kernel (race_insn [])"
    unfolding shares_unique_key_def race_insn_simps
    by (rule bexI [of _ "''l''"], rule bexI [of _ "''p''"]) (simp_all add: uk)
  have uk2: "unique_key (race_kernel Is_True []) ''l'' = Some (AxisKey ''l'' 0)"
    "unique_key (race_kernel Is_True []) ''p'' = None"
    by (simp_all add: unique_key_def race_kernel_simps LocalAxis_def Vector_def)
  have nsh: "\<not> shares_unique_key (race_kernel Is_True []) (race_insn [])"
    unfolding shares_unique_key_def race_insn_simps
    by (auto simp: uk2)
  have ok: "check_for_double_use_of_hw_axes (race_kernel Is_True []) = Inr ()"
    using double_use_verdict [of "race_kernel Is_True []"] nsh
    by (simp add: race_kernel_simps)
  have "check_for_double_use_of_hw_axes double_use_kernel \<noteq> Inr ()"
    using double_use_verdict [of double_use_kernel] sh
    by (simp add: double_use_kernel_simps)
  then obtain e where e: "check_for_double_use_of_hw_axes double_use_kernel = Inl e"
    by (cases "check_for_double_use_of_hw_axes double_use_kernel") auto
  with double_use_verdict [of double_use_kernel]
  obtain a tag where "a \<in> set (insn_inames (race_insn []))"
    "e = MultipleInamesTagged (insn_id (race_insn [])) tag"
    "iname_to_tag double_use_kernel a = Some tag"
    by (auto simp: double_use_kernel_simps)
  then have "e = MultipleInamesTagged ''write_t'' (LocalAxis 0)"
    by (auto simp: race_insn_simps double_use_kernel_simps split: if_splits)
  with e sh nsh ok show ?thesis by simp
qed

subsection \<open>Data-dependent parallel bounds\<close>

lemma for_each_enumerate_Inr_iff:
  "for_each body (enumerate n xs) = Inr () \<longleftrightarrow> (\<forall>i < length xs. body (n + i, xs ! i) = Inr ())"
proof (induction xs arbitrary: n)
  case Nil
  then show ?case by simp
next
  case (Cons x xs)
  have "(\<forall>i < length (x # xs). body (n + i, (x # xs) ! i) = Inr ())
      \<longleftrightarrow> body (n, x) = Inr () \<and> (\<forall>i < length xs. body (Suc n + i, xs ! i) = Inr ())"
    by (auto simp: less_Suc_eq_0_disj)
  then show ?case
    using Cons.IH [of "Suc n"] by (auto split: sum.splits)
qed

lemma for_each_enumerate_Inl_D:
  "for_each body (enumerate n xs) = Inl e \<Longrightarrow>
     \<exists>i < length xs. body (n + i, xs ! i) = Inl e \<and> (\<forall>j < i. body (n + j, xs ! j) = Inr ())"
proof (induction xs arbitrary: n)
  case Nil
  then show ?case by simp
next
  case (Cons x xs)
  show ?case
  proof (cases "body (n, x)")
    case (Inl e')
    with Cons.prems have "body (n + 0, (x # xs) ! 0) = Inl e" by simp
    then show ?thesis by (intro exI [of _ 0]) simp
  next
    case (Inr u)
    with Cons.prems have "for_each body (enumerate (Suc n) xs) = Inl e" by simp
    from Cons.IH [OF this] obtain i where i: "i < length xs"
      "body (Suc n + i, xs ! i) = Inl e" "\<forall>j < i. body (Suc n + j, xs ! j) = Inr ()"
      by blast
    have "\<forall>j < Suc i. body (n + j, (x # xs) ! j) = Inr ()"
    proof (intro allI impI)
      fix j assume "j < Suc i"
      then show "body (n + j, (x # xs) ! j) = Inr ()"
        using i(3) Inr by (cases j) auto
    qed
    with i show ?thesis by (intro exI [of _ "Suc i"]) simp
  qed
qed

lemma set_par_inames:
  "set (par_inames k dm) =
     {iname \<in> set (set_names dm). isinstance (iname_to_tag k iname) is_ParallelTag}"
  by (auto simp: par_inames_def)

lemma data_dependent_dom_ok_iff:
  "data_dependent_dom k (i, dm) = Inr () \<longleftrightarrow>
     (par_inames k dm = [] \<or> set (param_names dm) \<inter> dom (temporary_variables k) = {})"
  by (auto simp: data_dependent_dom_def for_each_Inr_iff)

lemma data_dependent_dom_error:
  assumes "data_dependent_dom k (i, dm) = Inl e"
  shows "\<exists>par. e = DataDependentParallelBounds i par (par_inames k dm)
      \<and> par \<in> set (param_names dm) \<and> par \<in> dom (temporary_variables k)
      \<and> par_inames k dm \<noteq> []"
proof -
  from assms have ne: "par_inames k dm \<noteq> []"
    and fe: "for_each (\<lambda>par. if par \<in> dom (temporary_variables k) then
                      Inl (DataDependentParallelBounds i par (par_inames k dm))
                    else Inr ()) (remdups (param_names dm)) = Inl e"
    by (auto simp: data_dependent_dom_def split: if_splits)
  from for_each_Inl_D [OF fe] obtain pre par post where
    "remdups (param_names dm) = pre @ par # post"
    "(if par \<in> dom (temporary_variables k) then
        Inl (DataDependentParallelBounds i par (par_inames k dm)) else Inr ()) = Inl e"
    by blast
  then have "par \<in> set (remdups (param_names dm))"
    "par \<in> dom (temporary_variables k)"
    "e = DataDependentParallelBounds i par (par_inames k dm)"
    by (auto split: if_splits)
  with ne show ?thesis by auto
qed

text \<open>
  Claim C8. \<^verbatim>\<open>check_for_data_dependent_parallel_bounds\<close> passes exactly when every domain
  that has a parallel-tagged iname among its set dimensions has no parameter that is the
  name of a temporary variable: a domain without parallel inames passes, and so does one
  whose parameters are no temporaries. Every failure names the index of a domain, one of
  its parameters that is a temporary, and the non-empty set of its parallel inames.
\<close>

theorem data_dependent_parallel_bounds_verdict:
  "(check_for_data_dependent_parallel_bounds k = Inr () \<longleftrightarrow>
      (\<forall>dm \<in> set (domains k).
         (\<exists>iname \<in> set (set_names dm). isinstance (iname_to_tag k iname) is_ParallelTag)
           \<longrightarrow> set (param_names dm) \<inter> dom (temporary_variables k) = {}))
   \<and> (\<forall>e. check_for_data_dependent_parallel_bounds k = Inl e \<longrightarrow>
        (\<exists>i par names. i < length (domains k)
           \<and> e = DataDependentParallelBounds i par names
           \<and> par \<in> set (param_names (domains k ! i)) \<and> par \<in> dom (temporary_variables k)
           \<and> names \<noteq> []
           \<and> set names = {iname \<in> set (set_names (domains k ! i)).
                            isinstance (iname_to_tag k iname) is_ParallelTag}))"
proof (intro conjI allI impI)
  have par: "\<And>dm. (par_inames k dm = []) =
      (\<not> (\<exists>iname \<in> set (set_names dm). isinstance (iname_to_tag k iname) is_ParallelTag))"
    using set_par_inames [of k] by (metis (mono_tags, lifting) Collect_empty_eq set_empty)
  have "check_for_data_dependent_parallel_bounds k = Inr () \<longleftrightarrow>
      (\<forall>p \<in> set (enumerate 0 (domains k)).
         par_inames k (snd p) = []
         \<or> set (param_names (snd p)) \<inter> dom (temporary_variables k) = {})"
    unfolding check_for_data_dependent_parallel_bounds_def for_each_Inr_iff
    using data_dependent_dom_ok_iff [of k] by (metis prod.collapse)
  also have "\<dots> \<longleftrightarrow> (\<forall>dm \<in> snd ` set (enumerate 0 (domains k)).
         par_inames k dm = []
         \<or> set (param_names dm) \<inter> dom (temporary_variables k) = {})"
    by blast
  also have "snd ` set (enumerate 0 (domains k)) = set (domains k)"
    by (metis map_snd_enumerate set_map)
  finally show "check_for_data_dependent_parallel_bounds k = Inr () \<longleftrightarrow>
      (\<forall>dm \<in> set (domains k).
         (\<exists>iname \<in> set (set_names dm). isinstance (iname_to_tag k iname) is_ParallelTag)
           \<longrightarrow> set (param_names dm) \<inter> dom (temporary_variables k) = {})"
    unfolding par by blast
next
  fix e
  assume "check_for_data_dependent_parallel_bounds k = Inl e"
  from for_each_enumerate_Inl_D [OF this [unfolded check_for_data_dependent_parallel_bounds_def]]
  obtain i where i: "i < length (domains k)"
    "data_dependent_dom k (i, domains k ! i) = Inl e"
    by auto
  from data_dependent_dom_error [OF i(2)] i(1) set_par_inames [of k "domains k ! i"]
  show "\<exists>i par names. i < length (domains k)
           \<and> e = DataDependentParallelBounds i par names
           \<and> par \<in> set (param_names (domains k ! i)) \<and> par \<in> dom (temporary_variables k)
           \<and> names \<noteq> []
           \<and> set names = {iname \<in> set (set_names (domains k ! i)).
                            isinstance (iname_to_tag k iname) is_ParallelTag}"
    by blast
qed


lemma parallel_domain_kernel_simps:
  "domains (parallel_domain_kernel temps) = [l_below_n]"
  "iname_to_tag (parallel_domain_kernel temps) = [''l'' \<mapsto> LocalAxis 0]"
  "temporary_variables (parallel_domain_kernel temps) = temps"
  by (simp_all add: parallel_domain_kernel_def empty_kernel_def)

theorem data_dependent_parallel_bounds_verdict_witness:
  "(\<exists>names. check_for_data_dependent_parallel_bounds
     (parallel_domain_kernel [''n'' \<mapsto> \<lparr>tv_name = ''n'', tv_shape = None, is_local = Is_False\<rparr>])
     = Inl (DataDependentParallelBounds 0 ''n'' names) \<and> set names = {''l''})
   \<and> check_for_data_dependent_parallel_bounds (parallel_domain_kernel Map.empty) = Inr ()"
proof -
  let ?k = "parallel_domain_kernel [''n'' \<mapsto> \<lparr>tv_name = ''n'', tv_shape = None, is_local = Is_False\<rparr>]"
  have ok: "check_for_data_dependent_parallel_bounds (parallel_domain_kernel Map.empty) = Inr ()"
    using data_dependent_parallel_bounds_verdict [of "parallel_domain_kernel Map.empty"]
    by (simp add: parallel_domain_kernel_simps)
  have "check_for_data_dependent_parallel_bounds ?k \<noteq> Inr ()"
    using data_dependent_parallel_bounds_verdict [of ?k]
    by (simp add: parallel_domain_kernel_simps l_below_n_def isinstance_def LocalAxis_def)
  then obtain e where e: "check_for_data_dependent_parallel_bounds ?k = Inl e"
    by (cases "check_for_data_dependent_parallel_bounds ?k") auto
  with data_dependent_parallel_bounds_verdict [of ?k]
  obtain i par names where "i < length (domains ?k)"
    "e = DataDependentParallelBounds i par names"
    "par \<in> set (param_names (domains ?k ! i))" "names \<noteq> []"
    "set names = {iname \<in> set (set_names (domains ?k ! i)).
                            isinstance (iname_to_tag ?k iname) is_ParallelTag}"
    by blast
  then have "e = DataDependentParallelBounds 0 ''n'' names \<and> set names = {''l''}"
    by (auto simp: parallel_domain_kernel_simps l_below_n_def isinstance_def LocalAxis_def)
  with e ok show ?thesis by blast
qed

subsection \<open>Axis coverage\<close>

lemma axes_used_eq:
  "axes_used k xs (g, l) =
     (if \<exists>iname \<in> set xs. \<exists>tag. iname_to_tag k iname = Some tag
           \<and> \<not> is_LocalIndexTag tag \<and> \<not> is_GroupIndexTag tag \<and> is_AutoLocalIndexTagBase tag
      then Inl AutoLocalTagEncountered
      else Inr (g \<union> {ax. \<exists>iname \<in> set xs. \<exists>tag. iname_to_tag k iname = Some tag
                        \<and> \<not> is_LocalIndexTag tag \<and> is_GroupIndexTag tag \<and> ax = axis tag},
                l \<union> {ax. \<exists>iname \<in> set xs. \<exists>tag. iname_to_tag k iname = Some tag
                        \<and> is_LocalIndexTag tag \<and> ax = axis tag}))"
proof (induction xs arbitrary: g l)
  case Nil
  then show ?case by simp
next
  case (Cons x xs)
  show ?case
  proof (cases "iname_to_tag k x")
    case None
    then show ?thesis by (simp add: Cons.IH)
  next
    case (Some tag)
    consider (loc) "is_LocalIndexTag tag"
      | (grp) "\<not> is_LocalIndexTag tag" "is_GroupIndexTag tag"
      | (auto) "\<not> is_LocalIndexTag tag" "\<not> is_GroupIndexTag tag" "is_AutoLocalIndexTagBase tag"
      | (other) "\<not> is_LocalIndexTag tag" "\<not> is_GroupIndexTag tag" "\<not> is_AutoLocalIndexTagBase tag"
      by blast
    then show ?thesis
    proof cases
      case loc
      with Some show ?thesis by (simp add: Cons.IH) blast
    next
      case grp
      with Some show ?thesis by (simp add: Cons.IH) blast
    next
      case auto
      with Some show ?thesis by simp
    next
      case other
      with Some show ?thesis by (simp add: Cons.IH)
    qed
  qed
qed

lemma unused_hw_axes_insn_eq:
  "unused_hw_axes_insn k insn =
     (if boostable insn then Inr ()
      else if has_auto_local_tag k insn then Inl AutoLocalTagEncountered
      else if group_axes k \<noteq> used_group_axes k insn then
        Inl (UnusedGroupAxes (insn_id insn) (group_axes k) (used_group_axes k insn))
      else if local_axes k \<noteq> used_local_axes k insn then
        Inl (UnusedLocalAxes (insn_id insn) (local_axes k) (used_local_axes k insn))
      else Inr ())"
proof -
  have ax: "axes_used k (insn_inames insn) ({}, {}) =
      (if has_auto_local_tag k insn then Inl AutoLocalTagEncountered
       else Inr (used_group_axes k insn, used_local_axes k insn))"
    unfolding axes_used_eq has_auto_local_tag_def used_group_axes_def used_local_axes_def
    by simp
  show ?thesis
    unfolding unused_hw_axes_insn_def ax by simp
qed

lemma auto_local_kernel_simps:
  "instructions auto_local_kernel = [race_insn []]"
  "iname_to_tag auto_local_kernel = [''l'' \<mapsto> LocalAxis 0, ''p'' \<mapsto> AutoLocal]"
  "group_axes auto_local_kernel = {}"
  "local_axes auto_local_kernel = {0}"
  by (simp_all add: auto_local_kernel_def empty_kernel_def group_axes_def local_axes_def)

lemma covered_kernel_simps:
  "instructions covered_kernel = [race_insn []]"
  "iname_to_tag covered_kernel = [''l'' \<mapsto> LocalAxis 0, ''p'' \<mapsto> Vector]"
  "group_axes covered_kernel = {}"
  "local_axes covered_kernel = {0}"
  by (simp_all add: covered_kernel_def empty_kernel_def group_axes_def local_axes_def)

lemma race_insn_not_boostable: "\<not> boostable (race_insn idx)"
  by (simp add: race_insn_def)

lemma auto_local_kernel_axes:
  "used_group_axes auto_local_kernel (race_insn []) = {}"
  "used_local_axes auto_local_kernel (race_insn []) = {0}"
  "has_auto_local_tag auto_local_kernel (race_insn [])"
  by (auto simp: used_group_axes_def used_local_axes_def has_auto_local_tag_def
      auto_local_kernel_simps race_insn_simps LocalAxis_def AutoLocal_def split: if_splits)

lemma covered_kernel_axes:
  "used_group_axes covered_kernel (race_insn []) = {}"
  "used_local_axes covered_kernel (race_insn []) = {0}"
  "\<not> has_auto_local_tag covered_kernel (race_insn [])"
  by (auto simp: used_group_axes_def used_local_axes_def has_auto_local_tag_def
      covered_kernel_simps race_insn_simps LocalAxis_def Vector_def split: if_splits)

text \<open>
  Claim C5, as stated, at a kernel with one local axis and no group axis: the only
  instruction is not boostable and the axes its tags carry are exactly the group and the
  local index set of the grid, but one of its inames still has the automatic local
  placeholder, and line 57 raises before the sets are compared. The error does not name
  the instruction.
\<close>

theorem axis_coverage_counterexample:
  "instructions auto_local_kernel = [race_insn []]
   \<and> \<not> boostable (race_insn [])
   \<and> used_group_axes auto_local_kernel (race_insn []) = group_axes auto_local_kernel
   \<and> used_local_axes auto_local_kernel (race_insn []) = local_axes auto_local_kernel
   \<and> check_for_unused_hw_axes_in_insns auto_local_kernel = Inl AutoLocalTagEncountered"
  by (simp add: auto_local_kernel_simps auto_local_kernel_axes race_insn_not_boostable
      check_for_unused_hw_axes_in_insns_def unused_hw_axes_insn_eq)

text \<open>
  Claim C5, amended. \<^verbatim>\<open>check_for_unused_hw_axes_in_insns\<close> passes exactly when every
  instruction that is not boostable has no iname with the automatic local placeholder
  and the group-axis and local-axis indices carried by the tags of its inames are exactly
  the index sets \<open>{0..<group dimensions}\<close> and \<open>{0..<local dimensions}\<close> of the grid;
  boostable instructions are exempt. A failure comes from an instruction that is not
  boostable: the automatic-local error if it has such an iname, and otherwise a mismatch
  error that names the id of the instruction, the group axes first.
\<close>

theorem axis_coverage_verdict:
  "(check_for_unused_hw_axes_in_insns k = Inr () \<longleftrightarrow>
      (\<forall>insn \<in> set (instructions k). \<not> boostable insn \<longrightarrow>
         \<not> has_auto_local_tag k insn
         \<and> used_group_axes k insn = group_axes k \<and> used_local_axes k insn = local_axes k))
   \<and> (\<forall>e. check_for_unused_hw_axes_in_insns k = Inl e \<longrightarrow>
        (\<exists>insn \<in> set (instructions k). \<not> boostable insn
           \<and> (if has_auto_local_tag k insn then e = AutoLocalTagEncountered
               else if used_group_axes k insn \<noteq> group_axes k then
                 e = UnusedGroupAxes (insn_id insn) (group_axes k) (used_group_axes k insn)
               else used_local_axes k insn \<noteq> local_axes k
                 \<and> e = UnusedLocalAxes (insn_id insn) (local_axes k) (used_local_axes k insn))))"
proof (intro conjI allI impI)
  show "check_for_unused_hw_axes_in_insns k = Inr () \<longleftrightarrow>
      (\<forall>insn \<in> set (instructions k). \<not> boostable insn \<longrightarrow>
         \<not> has_auto_local_tag k insn
         \<and> used_group_axes k insn = group_axes k \<and> used_local_axes k insn = local_axes k)"
    unfolding check_for_unused_hw_axes_in_insns_def for_each_Inr_iff unused_hw_axes_insn_eq
    by (intro ball_cong refl) auto
next
  fix e
  assume "check_for_unused_hw_axes_in_insns k = Inl e"
  from for_each_Inl_D [OF this [unfolded check_for_unused_hw_axes_in_insns_def]]
  obtain pre insn post where i: "instructions k = pre @ insn # post"
    and e: "unused_hw_axes_insn k insn = Inl e"
    by blast
  from i have "insn \<in> set (instructions k)" by simp
  moreover from e have "\<not> boostable insn
           \<and> (if has_auto_local_tag k insn then e = AutoLocalTagEncountered
               else if used_group_axes k insn \<noteq> group_axes k then
                 e = UnusedGroupAxes (insn_id insn) (group_axes k) (used_group_axes k insn)
               else used_local_axes k insn \<noteq> local_axes k
                 \<and> e = UnusedLocalAxes (insn_id insn) (local_axes k) (used_local_axes k insn))"
    unfolding unused_hw_axes_insn_eq by (auto split: if_splits)
  ultimately show "\<exists>insn \<in> set (instructions k). \<not> boostable insn
           \<and> (if has_auto_local_tag k insn then e = AutoLocalTagEncountered
               else if used_group_axes k insn \<noteq> group_axes k then
                 e = UnusedGroupAxes (insn_id insn) (group_axes k) (used_group_axes k insn)
               else used_local_axes k insn \<noteq> local_axes k
                 \<and> e = UnusedLocalAxes (insn_id insn) (local_axes k) (used_local_axes k insn))"
    by blast
qed

theorem axis_coverage_verdict_witness:
  "check_for_unused_hw_axes_in_insns covered_kernel = Inr ()
   \<and> check_for_unused_hw_axes_in_insns (race_kernel Is_True [])
       = Inl (UnusedLocalAxes ''write_t'' {} {0})"
proof -
  have a: "check_for_unused_hw_axes_in_insns covered_kernel = Inr ()"
    using axis_coverage_verdict [of covered_kernel]
    by (simp add: covered_kernel_simps covered_kernel_axes)
  let ?k = "race_kernel Is_True []"
  have ax: "used_group_axes ?k (race_insn []) = {}" "used_local_axes ?k (race_insn []) = {0}"
    "\<not> has_auto_local_tag ?k (race_insn [])" "group_axes ?k = {}" "local_axes ?k = {}"
    by (auto simp: used_group_axes_def used_local_axes_def has_auto_local_tag_def
      race_kernel_simps race_insn_simps LocalAxis_def Vector_def group_axes_def local_axes_def
      race_kernel_def empty_kernel_def split: if_splits)
  have "check_for_unused_hw_axes_in_insns ?k \<noteq> Inr ()"
    using axis_coverage_verdict [of ?k]
    by (simp add: race_kernel_simps ax race_insn_not_boostable)
  then obtain e where e: "check_for_unused_hw_axes_in_insns ?k = Inl e"
    by (cases "check_for_unused_hw_axes_in_insns ?k") auto
  with axis_coverage_verdict [of ?k]
  have "e = UnusedLocalAxes ''write_t'' {} {0}"
    by (simp add: race_kernel_simps ax race_insn_simps)
  with a e show ?thesis by simp
qed

subsection \<open>The orchestrator\<close>

lemma chain_step:
  "for_each (\<lambda>check. check k) (chk # rest) =
     (case chk k of Inl e \<Rightarrow> Inl e | Inr u \<Rightarrow> for_each (\<lambda>check. check k) rest)"
  by simp

text \<open>No node is a string, so the fourth checker finds nothing to object to.\<close>

lemma check_for_inactive_iname_access_passes:
  "check_for_inactive_iname_access k = Inr ()"
  by (simp add: check_for_inactive_iname_access_def for_each_Inr_iff
      inactive_iname_access_insn_def expr_equals_str_def)

lemma double_use_kernel_fails:
  "check_for_double_use_of_hw_axes double_use_kernel
     = Inl (MultipleInamesTagged ''write_t'' (LocalAxis 0))"
  by (simp add: check_for_double_use_of_hw_axes_def double_use_insn_def
      double_use_kernel_simps race_insn_simps LocalAxis_def)

lemma double_use_kernel_orphaned:
  "check_for_orphaned_user_hardware_axes double_use_kernel = Inr ()"
  by (simp add: check_for_orphaned_user_hardware_axes_def double_use_kernel_def empty_kernel_def)

lemma double_use_kernel_unused:
  "check_for_unused_hw_axes_in_insns double_use_kernel = Inl (UnusedLocalAxes ''write_t'' {} {0})"
proof -
  have "used_group_axes double_use_kernel (race_insn []) = {}"
    "used_local_axes double_use_kernel (race_insn []) = {0}"
    "\<not> has_auto_local_tag double_use_kernel (race_insn [])"
    "group_axes double_use_kernel = {}" "local_axes double_use_kernel = {}"
    by (auto simp: used_group_axes_def used_local_axes_def has_auto_local_tag_def
        double_use_kernel_simps race_insn_simps LocalAxis_def group_axes_def local_axes_def
        double_use_kernel_def empty_kernel_def split: if_splits)
  then show ?thesis
    by (simp add: check_for_unused_hw_axes_in_insns_def unused_hw_axes_insn_eq
        double_use_kernel_simps race_insn_not_boostable race_insn_simps)
qed

lemma orphan_kernel_checks:
  "check_for_orphaned_user_hardware_axes orphan_kernel = Inl (OrphanedLocalAxis 0)"
  "check_for_unused_hw_axes_in_insns orphan_kernel = Inr ()"
  "check_for_double_use_of_hw_axes orphan_kernel = Inr ()"
  "check_for_inactive_iname_access orphan_kernel = Inr ()"
  "check_for_write_races orphan_kernel = Inr ()"
  "check_for_data_dependent_parallel_bounds orphan_kernel = Inr ()"
  "check_bounds c orphan_kernel = Inr ()"
  "check_write_destinations orphan_kernel = Inr ()"
  by (simp_all add: orphan_kernel_def empty_kernel_def
      check_for_orphaned_user_hardware_axes_def orphaned_axis_def
      check_for_unused_hw_axes_in_insns_def check_for_double_use_of_hw_axes_def
      check_for_inactive_iname_access_def check_for_write_races_def
      check_for_data_dependent_parallel_bounds_def check_bounds_def
      check_write_destinations_def enumerate_eq_zip)

lemma empty_kernel_checks:
  "check_for_orphaned_user_hardware_axes empty_kernel = Inr ()"
  "check_for_unused_hw_axes_in_insns empty_kernel = Inr ()"
  "check_for_double_use_of_hw_axes empty_kernel = Inr ()"
  "check_for_inactive_iname_access empty_kernel = Inr ()"
  "check_for_write_races empty_kernel = Inr ()"
  "check_for_data_dependent_parallel_bounds empty_kernel = Inr ()"
  "check_bounds c empty_kernel = Inr ()"
  "check_write_destinations empty_kernel = Inr ()"
  by (simp_all add: empty_kernel_def
      check_for_orphaned_user_hardware_axes_def orphaned_axis_def
      check_for_unused_hw_axes_in_insns_def check_for_double_use_of_hw_axes_def
      check_for_inactive_iname_access_def check_for_write_races_def
      check_for_data_dependent_parallel_bounds_def check_bounds_def
      check_write_destinations_def enumerate_eq_zip)

text \<open>
  Claim C4, as stated. In the first kernel two inames of the instruction are bound to
  local axis 0 and the grid has no local axis: the orchestrator reports the double use,
  because line 318 runs before line 319, while the order of the claim (axis coverage
  first) would report the unused axis. The second kernel passes all seven checkers of
  the claim, but the orchestrator fails: line 317 first runs an eighth checker, for
  user-requested local axes to which no iname is mapped.
\<close>

theorem specified_order_counterexample:
  "snd (run_automatic_checks abstaining double_use_kernel)
     = Inl (MultipleInamesTagged ''write_t'' (LocalAxis 0))
   \<and> snd (run_checks (checks_in_specified_order abstaining) double_use_kernel)
     = Inl (UnusedLocalAxes ''write_t'' {} {0})
   \<and> snd (run_automatic_checks abstaining orphan_kernel) = Inl (OrphanedLocalAxis 0)
   \<and> snd (run_checks (checks_in_specified_order abstaining) orphan_kernel) = Inr ()"
  by (simp add: run_automatic_checks_def run_checks_def automatic_checks_def
      checks_in_specified_order_def double_use_kernel_fails double_use_kernel_orphaned
      double_use_kernel_unused orphan_kernel_checks)

text \<open>
  Claim C4, amended. \<^verbatim>\<open>run_automatic_checks\<close> calls eight checkers on the one kernel
  in this order: orphaned user hardware axes, double use, axis coverage, inactive access,
  write races, data-dependent bounds, bounds, write destinations. The first of them that
  fails is the last one called: its error is the error of the orchestrator, raised after
  the dump of the kernel has been printed, and no later checker runs. When all eight
  pass, nothing is printed and the orchestrator returns. (The fourth checker is called
  like the others, but as lines 94-97 are written it compares expression nodes with
  strings and raises for no kernel.)
\<close>

theorem run_automatic_checks_order:
  "(check_for_orphaned_user_hardware_axes k = Inl e
      \<longrightarrow> run_automatic_checks c k = (failing_kernel_dump k, Inl e)
          \<and> checkers_called (automatic_checks c) k = 1)
   \<and> (check_for_orphaned_user_hardware_axes k = Inr ()
      \<and> check_for_double_use_of_hw_axes k = Inl e
      \<longrightarrow> run_automatic_checks c k = (failing_kernel_dump k, Inl e)
          \<and> checkers_called (automatic_checks c) k = 2)
   \<and> (check_for_orphaned_user_hardware_axes k = Inr ()
      \<and> check_for_double_use_of_hw_axes k = Inr ()
      \<and> check_for_unused_hw_axes_in_insns k = Inl e
      \<longrightarrow> run_automatic_checks c k = (failing_kernel_dump k, Inl e)
          \<and> checkers_called (automatic_checks c) k = 3)
   \<and> check_for_inactive_iname_access k = Inr ()
   \<and> (check_for_orphaned_user_hardware_axes k = Inr ()
      \<and> check_for_double_use_of_hw_axes k = Inr ()
      \<and> check_for_unused_hw_axes_in_insns k = Inr ()
      \<and> check_for_write_races k = Inl e
      \<longrightarrow> run_automatic_checks c k = (failing_kernel_dump k, Inl e)
          \<and> checkers_called (automatic_checks c) k = 5)
   \<and> (check_for_orphaned_user_hardware_axes k = Inr ()
      \<and> check_for_double_use_of_hw_axes k = Inr ()
      \<and> check_for_unused_hw_axes_in_insns k = Inr ()
      \<and> check_for_write_races k = Inr ()
      \<and> check_for_data_dependent_parallel_bounds k = Inl e
      \<longrightarrow> run_automatic_checks c k = (failing_kernel_dump k, Inl e)
          \<and> checkers_called (automatic_checks c) k = 6)
   \<and> (check_for_orphaned_user_hardware_axes k = Inr ()
      \<and> check_for_double_use_of_hw_axes k = Inr ()
      \<and> check_for_unused_hw_axes_in_insns k = Inr ()
      \<and> check_for_write_races k = Inr ()
      \<and> check_for_data_dependent_parallel_bounds k = Inr ()
      \<and> check_bounds c k = Inl e
      \<longrightarrow> run_automatic_checks c k = (failing_kernel_dump k, Inl e)
          \<and> checkers_called (automatic_checks c) k = 7)
   \<and> (check_for_orphaned_user_hardware_axes k = Inr ()
      \<and> check_for_double_use_of_hw_axes k = Inr ()
      \<and> check_for_unused_hw_axes_in_insns k = Inr ()
      \<and> check_for_write_races k = Inr ()
      \<and> check_for_data_dependent_parallel_bounds k = Inr ()
      \<and> check_bounds c k = Inr ()
      \<and> check_write_destinations k = Inl e
      \<longrightarrow> run_automatic_checks c k = (failing_kernel_dump k, Inl e)
          \<and> checkers_called (automatic_checks c) k = 8)
   \<and> (check_for_orphaned_user_hardware_axes k = Inr ()
      \<and> check_for_double_use_of_hw_axes k = Inr ()
      \<and> check_for_unused_hw_axes_in_insns k = Inr ()
      \<and> check_for_write_races k = Inr ()
      \<and> check_for_data_dependent_parallel_bounds k = Inr ()
      \<and> check_bounds c k = Inr ()
      \<and> check_write_destinations k = Inr ()
      \<longrightarrow> run_automatic_checks c k = ([], Inr ())
          \<and> checkers_called (automatic_checks c) k = 8)"
proof -
  note i = check_for_inactive_iname_access_passes [of k]
  show ?thesis
    unfolding run_automatic_checks_def run_checks_def automatic_checks_def
    apply (intro conjI impI)
                     apply (simp_all only: chain_step for_each.simps checkers_called.simps
        sum.case prod.case i)
    done
qed

lemma covered_kernel_checks:
  "check_for_orphaned_user_hardware_axes covered_kernel = Inr ()"
  "check_for_double_use_of_hw_axes covered_kernel = Inr ()"
  "check_for_unused_hw_axes_in_insns covered_kernel = Inr ()"
  "check_for_write_races covered_kernel = Inl (InvalidAssigneeName ''write_t'')"
proof -
  show "check_for_orphaned_user_hardware_axes covered_kernel = Inr ()"
    by (simp add: check_for_orphaned_user_hardware_axes_def covered_kernel_def
        empty_kernel_def)
  show "check_for_double_use_of_hw_axes covered_kernel = Inr ()"
    by (simp add: check_for_double_use_of_hw_axes_def double_use_insn_def
        covered_kernel_simps race_insn_simps LocalAxis_def Vector_def)
  show "check_for_unused_hw_axes_in_insns covered_kernel = Inr ()"
    by (simp add: check_for_unused_hw_axes_in_insns_def unused_hw_axes_insn_eq
        covered_kernel_simps covered_kernel_axes race_insn_not_boostable)
  have "arg_dict covered_kernel = Map.empty" "temporary_variables covered_kernel = Map.empty"
    "all_inames covered_kernel = {}"
    by (simp_all add: covered_kernel_def empty_kernel_def)
  then show "check_for_write_races covered_kernel = Inl (InvalidAssigneeName ''write_t'')"
    by (simp add: check_for_write_races_def covered_kernel_simps write_race_insn_def
        depmap_tuple_def race_insn_simps raceable_parallel_insn_inames_def)
qed

theorem run_automatic_checks_order_witness:
  "run_automatic_checks abstaining double_use_kernel
     = (failing_kernel_dump double_use_kernel,
        Inl (MultipleInamesTagged ''write_t'' (LocalAxis 0)))
   \<and> checkers_called (automatic_checks abstaining) double_use_kernel = 2
   \<and> run_automatic_checks abstaining orphan_kernel
     = (failing_kernel_dump orphan_kernel, Inl (OrphanedLocalAxis 0))
   \<and> checkers_called (automatic_checks abstaining) orphan_kernel = 1
   \<and> run_automatic_checks abstaining covered_kernel
     = (failing_kernel_dump covered_kernel, Inl (InvalidAssigneeName ''write_t''))
   \<and> checkers_called (automatic_checks abstaining) covered_kernel = 5
   \<and> run_automatic_checks abstaining empty_kernel = ([], Inr ())
   \<and> checkers_called (automatic_checks abstaining) empty_kernel = 8"
proof -
  note t = run_automatic_checks_order [of _ _ abstaining]
  have a: "run_automatic_checks abstaining double_use_kernel
     = (failing_kernel_dump double_use_kernel,
        Inl (MultipleInamesTagged ''write_t'' (LocalAxis 0)))
     \<and> checkers_called (automatic_checks abstaining) double_use_kernel = 2"
    using t [of double_use_kernel "MultipleInamesTagged ''write_t'' (LocalAxis 0)"]
      double_use_kernel_fails double_use_kernel_orphaned by blast
  have b: "run_automatic_checks abstaining orphan_kernel
     = (failing_kernel_dump orphan_kernel, Inl (OrphanedLocalAxis 0))
     \<and> checkers_called (automatic_checks abstaining) orphan_kernel = 1"
    using t [of orphan_kernel "OrphanedLocalAxis 0"] orphan_kernel_checks(1) by blast
  have c: "run_automatic_checks abstaining covered_kernel
     = (failing_kernel_dump covered_kernel, Inl (InvalidAssigneeName ''write_t''))
     \<and> checkers_called (automatic_checks abstaining) covered_kernel = 5"
    using t [of covered_kernel "InvalidAssigneeName ''write_t''"] covered_kernel_checks
    by blast
  have d: "run_automatic_checks abstaining empty_kernel = ([], Inr ())
     \<and> checkers_called (automatic_checks abstaining) empty_kernel = 8"
    using t [of empty_kernel AssertionError] empty_kernel_checks by blast
  from a b c d show ?thesis by blast
qed

subsection \<open>Bounds\<close>

lemma acm_ok_subscripts:
  "acm c k d i e = Inr () \<longrightarrow>
      (\<forall>a idx. Subscript a idx \<in> set (subexprs e) \<longrightarrow> map_subscript_check c k d i a idx = Inr ())"
  and acm_list_ok_subscripts:
  "acm_list c k d i es = Inr () \<longrightarrow>
      (\<forall>x \<in> set es. \<forall>a idx. Subscript a idx \<in> set (subexprs x)
          \<longrightarrow> map_subscript_check c k d i a idx = Inr ())"
proof (induction c k d i e and c k d i es rule: acm_acm_list.induct)
  case (5 c k domain i a idx)
  show ?case
  proof
    assume ok: "acm c k domain i (Subscript a idx) = Inr ()"
    then have a: "acm c k domain i a = Inr ()"
      by (auto split: sum.splits)
    with ok have l: "acm_list c k domain i idx = Inr ()"
      by (auto split: sum.splits)
    with ok a have m: "map_subscript_check c k domain i a idx = Inr ()"
      by (auto split: sum.splits)
    from 5(1) a have A: "\<forall>a' idx'. Subscript a' idx' \<in> set (subexprs a)
        \<longrightarrow> map_subscript_check c k domain i a' idx' = Inr ()"
      by blast
    from 5(2) [of "()"] a l have L: "\<forall>x \<in> set idx. \<forall>a' idx'. Subscript a' idx' \<in> set (subexprs x)
          \<longrightarrow> map_subscript_check c k domain i a' idx' = Inr ()"
      by simp
    show "\<forall>a' idx'. Subscript a' idx' \<in> set (subexprs (Subscript a idx))
        \<longrightarrow> map_subscript_check c k domain i a' idx' = Inr ()"
      using m A L by auto
  qed
next
  case (7 c k domain i e es)
  show ?case
  proof
    assume ok: "acm_list c k domain i (e # es) = Inr ()"
    then have a: "acm c k domain i e = Inr ()"
      by (auto split: sum.splits)
    with ok have l: "acm_list c k domain i es = Inr ()"
      by (auto split: sum.splits)
    from 7(1) a 7(2) [of "()"] l
    show "\<forall>x \<in> set (e # es). \<forall>a idx. Subscript a idx \<in> set (subexprs x)
          \<longrightarrow> map_subscript_check c k domain i a idx = Inr ()"
      by simp
  qed
qed auto

lemma acm_fails_at_subscript:
  assumes "Subscript a idx \<in> set (subexprs e)"
    and "map_subscript_check c k d i a idx = Inl err"
  shows "\<exists>x. acm c k d i e = Inl x"
proof (cases "acm c k d i e")
  case (Inl x)
  then show ?thesis by blast
next
  case (Inr u)
  then have "acm c k d i e = Inr ()" by simp
  with acm_ok_subscripts [of c k d i e] assms show ?thesis by auto
qed

lemma for_each_fails:
  assumes "x \<in> set xs" and "body x = Inl e"
  shows "\<exists>e'. for_each body xs = Inl e'"
proof (cases "for_each body xs")
  case (Inl e')
  then show ?thesis by blast
next
  case (Inr u)
  then have "for_each body xs = Inr ()" by simp
  with for_each_Inr_iff [of body xs] assms show ?thesis by auto
qed

lemma map_subscript_check_arity:
  assumes "shape_of k v = Some shape"
    and "get_dependencies idx \<subseteq> set (param_names d) \<union> set (set_names d)"
    and "get_dependencies shape \<subseteq> set (param_names d) \<union> set (set_names d)"
    and "length idx \<noteq> length shape"
  shows "map_subscript_check c k d i (Variable v) idx =
     Inl (WrongNumberOfIndices v (Subscript (Variable v) idx) (length idx) (length shape))"
  using assms by (simp add: map_subscript_check_def)

lemma array_kernel_simps:
  "instructions (array_kernel d temps e) = [read_insn e]"
  "arg_dict (array_kernel d temps e) = [''a'' \<mapsto> \<lparr>arg_name = ''a'',
       arg_shape = Some [Constant 10], is_ConstantArg = False\<rparr>]"
  "temporary_variables (array_kernel d temps e) = temps"
  "get_inames_domain (array_kernel d temps e) = (\<lambda>inames. d)"
  "shape_of (array_kernel d temps e) ''a'' = Some [Constant 10]"
  by (simp_all add: array_kernel_def empty_kernel_def shape_of_def)

lemma read_insn_simps:
  "insn_id (read_insn e) = ''read_a''"
  "expression (read_insn e) = e"
  "assignee (read_insn e) = Variable ''t''"
  "insn_inames (read_insn e) = [''i'']"
  by (simp_all add: read_insn_def insn_inames_def)

lemma i_below_simps:
  "param_names (i_below n) = []"
  "set_names (i_below n) = [''i'']"
  by (simp_all add: i_below_def)

text \<open>
  Claim C7, as stated, at the read \<open>a[j, 0]\<close> of the argument \<open>a\<close> of rank 1, where
  \<open>j\<close> is no variable of the domain of the instruction: the reference has two indices
  for one extent, but lines 244-246 return before the arity is compared, because the
  subscript depends on a name the domain does not have. The bounds checker passes.
\<close>

theorem arity_mismatch_counterexample:
  "shape_of (array_kernel (i_below 10) Map.empty
       (Subscript (Variable ''a'') [Variable ''j'', Constant 0])) ''a'' = Some [Constant 10]
   \<and> length [Variable ''j'', Constant 0] \<noteq> length [Constant 10]
   \<and> check_bounds abstaining (array_kernel (i_below 10) Map.empty
       (Subscript (Variable ''a'') [Variable ''j'', Constant 0])) = Inr ()"
  by (simp add: array_kernel_simps check_bounds_def check_bounds_insn_def read_insn_simps
      i_below_simps map_subscript_check_def get_dependencies_def)

text \<open>
  Claim C7, amended. Let an instruction be checked (no parameter of its governing domain
  is the name of a temporary), and let its read expression or its write target contain a
  subscript of a variable with a declared shape, such that every variable of the
  subscript and of the shape is a variable of that domain. If the number of indices
  differs from the rank, the bounds checker fails.
\<close>

theorem arity_mismatch_fails:
  assumes insn: "insn \<in> set (instructions k)"
    and checked: "set (param_names (get_inames_domain k (set (insn_inames insn))))
        \<inter> dom (temporary_variables k) = {}"
    and ref: "Subscript (Variable v) idx \<in> set (subexprs (expression insn))
        \<or> Subscript (Variable v) idx \<in> set (subexprs (assignee insn))"
    and shape: "shape_of k v = Some shape"
    and deps: "get_dependencies idx \<subseteq>
          set (param_names (get_inames_domain k (set (insn_inames insn))))
          \<union> set (set_names (get_inames_domain k (set (insn_inames insn))))"
       "get_dependencies shape \<subseteq>
          set (param_names (get_inames_domain k (set (insn_inames insn))))
          \<union> set (set_names (get_inames_domain k (set (insn_inames insn))))"
    and arity: "length idx \<noteq> length shape"
  shows "\<exists>e. check_bounds c k = Inl e"
proof -
  let ?d = "get_inames_domain k (set (insn_inames insn))"
  note m = map_subscript_check_arity [OF shape deps arity, of c "insn_id insn"]
  have "\<exists>e. check_bounds_insn c k insn = Inl e"
  proof (cases "acm c k ?d (insn_id insn) (expression insn)")
    case (Inl x)
    with checked show ?thesis by (simp add: check_bounds_insn_def Let_def)
  next
    case (Inr u)
    with acm_fails_at_subscript [OF _ m] ref
    obtain x where "acm c k ?d (insn_id insn) (assignee insn) = Inl x"
      by fastforce
    with Inr checked show ?thesis by (simp add: check_bounds_insn_def Let_def)
  qed
  then obtain e where "check_bounds_insn c k insn = Inl e" by blast
  from for_each_fails [of insn "instructions k" "check_bounds_insn c k", OF insn this]
  show ?thesis
    by (simp add: check_bounds_def)
qed


theorem arity_mismatch_fails_witness:
  "\<exists>e. check_bounds abstaining (array_kernel (i_below 10) Map.empty
       (Subscript (Variable ''a'') [Variable ''i'', Constant 0])) = Inl e"
proof -
  let ?e = "Subscript (Variable ''a'') [Variable ''i'', Constant 0]"
  let ?k = "array_kernel (i_below 10) Map.empty ?e"
  have 1: "read_insn ?e \<in> set (instructions ?k)"
    by (simp add: array_kernel_simps)
  have 2: "set (param_names (get_inames_domain ?k (set (insn_inames (read_insn ?e)))))
        \<inter> dom (temporary_variables ?k) = {}"
    by (simp add: array_kernel_simps)
  have 3: "Subscript (Variable ''a'') [Variable ''i'', Constant 0]
          \<in> set (subexprs (expression (read_insn ?e)))
        \<or> Subscript (Variable ''a'') [Variable ''i'', Constant 0]
          \<in> set (subexprs (assignee (read_insn ?e)))"
    by (simp add: read_insn_simps)
  have 4: "shape_of ?k ''a'' = Some [Constant 10]"
    by (simp add: array_kernel_simps)
  have 5: "get_dependencies [Variable ''i'', Constant 0] \<subseteq>
          set (param_names (get_inames_domain ?k (set (insn_inames (read_insn ?e)))))
          \<union> set (set_names (get_inames_domain ?k (set (insn_inames (read_insn ?e)))))"
    by (simp add: array_kernel_simps i_below_simps get_dependencies_def)
  have 6: "get_dependencies [Constant 10] \<subseteq>
          set (param_names (get_inames_domain ?k (set (insn_inames (read_insn ?e)))))
          \<union> set (set_names (get_inames_domain ?k (set (insn_inames (read_insn ?e)))))"
    by (simp add: get_dependencies_def)
  have 7: "length [Variable ''i'', Constant 0] \<noteq> length [Constant 10]"
    by simp
  show ?thesis
    by (rule arity_mismatch_fails [OF 1 2 3 4 5 6 7])
qed

text \<open>
  Claim C6, as stated, at the read \<open>a[i * i, 0]\<close> of the argument \<open>a\<close> of rank 1, with
  collaborators for which no access range can be computed: the subscript is not
  analysable, and still an error is raised, because the arity is compared (line 248)
  before the access range is asked for (line 255).
\<close>

theorem bounds_abstention_counterexample:
  "get_access_range abstaining (i_below 10)
       [Product [Variable ''i'', Variable ''i''], Constant 0] = None
   \<and> check_bounds abstaining (array_kernel (i_below 10) Map.empty
       (Subscript (Variable ''a'') [Product [Variable ''i'', Variable ''i''], Constant 0]))
     = Inl (WrongNumberOfIndices ''a''
         (Subscript (Variable ''a'') [Product [Variable ''i'', Variable ''i''], Constant 0]) 2 1)"
  by (simp add: array_kernel_simps check_bounds_def check_bounds_insn_def read_insn_simps
      i_below_simps map_subscript_check_def get_dependencies_def
      abstaining_def)

text \<open>
  Claim C6, amended. The bounds checker skips an instruction whose governing domain has a
  parameter that is the name of a temporary: the instruction passes whatever it reads
  and writes. And when the access range of a subscript cannot be computed
  (\<^verbatim>\<open>isl.Error\<close>), a reference whose number of indices equals the declared rank (or
  whose variable has no declared shape) raises nothing itself, whatever its range; the
  walk checks the subscripts inside its index as for any other reference.
\<close>

theorem bounds_abstention:
  "(set (param_names (get_inames_domain k (set (insn_inames insn))))
        \<inter> dom (temporary_variables k) \<noteq> {}
      \<longrightarrow> check_bounds_insn c k insn = Inr ())
   \<and> (get_access_range c d idx = None
        \<and> (\<forall>shape. shape_of k v = Some shape \<longrightarrow> length idx = length shape)
      \<longrightarrow> map_subscript_check c k d i (Variable v) idx = Inr ()
          \<and> acm c k d i (Subscript (Variable v) idx) = acm_list c k d i idx)"
proof (intro conjI impI)
  assume "set (param_names (get_inames_domain k (set (insn_inames insn))))
        \<inter> dom (temporary_variables k) \<noteq> {}"
  then show "check_bounds_insn c k insn = Inr ()"
    by (simp add: check_bounds_insn_def Let_def)
next
  assume a: "get_access_range c d idx = None
        \<and> (\<forall>shape. shape_of k v = Some shape \<longrightarrow> length idx = length shape)"
  then show m: "map_subscript_check c k d i (Variable v) idx = Inr ()"
    by (simp add: map_subscript_check_def Let_def split: option.splits)
  show "acm c k d i (Subscript (Variable v) idx) = acm_list c k d i idx"
    by (simp add: m split: sum.splits)
qed

theorem bounds_abstention_witness:
  "check_bounds_insn abstaining
     (array_kernel l_below_n [''n'' \<mapsto> \<lparr>tv_name = ''n'', tv_shape = None, is_local = Is_False\<rparr>]
        (Subscript (Variable ''a'') [Constant 12, Constant 0]))
     (read_insn (Subscript (Variable ''a'') [Constant 12, Constant 0])) = Inr ()
   \<and> map_subscript_check abstaining (array_kernel (i_below 10) Map.empty
        (Subscript (Variable ''a'') [Product [Variable ''i'', Variable ''i'']]))
        (i_below 10) ''read_a'' (Variable ''a'') [Product [Variable ''i'', Variable ''i'']]
      = Inr ()"
proof -
  let ?e1 = "Subscript (Variable ''a'') [Constant 12, Constant 0]"
  let ?k1 = "array_kernel l_below_n
      [''n'' \<mapsto> \<lparr>tv_name = ''n'', tv_shape = None, is_local = Is_False\<rparr>] ?e1"
  let ?k2 = "array_kernel (i_below 10) Map.empty
        (Subscript (Variable ''a'') [Product [Variable ''i'', Variable ''i'']])"
  have h1: "set (param_names (get_inames_domain ?k1 (set (insn_inames (read_insn ?e1)))))
        \<inter> dom (temporary_variables ?k1) \<noteq> {}"
    by (simp add: array_kernel_simps l_below_n_def)
  have h2: "get_access_range abstaining (i_below 10)
        [Product [Variable ''i'', Variable ''i'']] = None
     \<and> (\<forall>shape. shape_of ?k2 ''a'' = Some shape
          \<longrightarrow> length [Product [Variable ''i'', Variable ''i'']] = length shape)"
    by (simp add: abstaining_def array_kernel_simps)
  from bounds_abstention [of ?k1 "read_insn ?e1" abstaining "i_below 10" "[]" "''a''" "''x''"] h1
  have a: "check_bounds_insn abstaining ?k1 (read_insn ?e1) = Inr ()"
    by blast
  from bounds_abstention [of ?k2 "read_insn ?e1" abstaining "i_below 10"
      "[Product [Variable ''i'', Variable ''i'']]" "''a''" "''read_a''"] h2
  have b: "map_subscript_check abstaining ?k2 (i_below 10) ''read_a'' (Variable ''a'')
      [Product [Variable ''i'', Variable ''i'']] = Inr ()"
    by blast
  from a b show ?thesis by blast
qed

subsection \<open>Advisory checks\<close>

lemma axis_msgs_severity:
  "axis_msgs ls sizes i = Inr m \<Longrightarrow> \<forall>x \<in> set m. fst x = 5"
proof (induction ls arbitrary: i m)
  case Nil
  then show ?case by simp
next
  case (Cons l ls)
  from Cons.prems obtain m' where m': "axis_msgs ls sizes (Suc i) = Inr m'"
    and m: "m = (if l > sizes ! i then [(5, ''group axis '' @ str_int (int i) @ '' too big'')]
                   else []) @ m'"
    by (auto split: if_splits sum.splits)
  from Cons.IH [OF m'] m show ?case by auto
qed

lemma axis_msgs_returns:
  "i + length ls \<le> length sizes \<Longrightarrow> \<exists>m. axis_msgs ls sizes i = Inr m"
proof (induction ls arbitrary: i)
  case Nil
  then show ?case by simp
next
  case (Cons l ls)
  then have "Suc i + length ls \<le> length sizes" "i < length sizes" by simp_all
  with Cons.IH [of "Suc i"] show ?case by auto
qed

lemma grid_msgs_cases:
  "grid_msgs c k ps = Inr m \<Longrightarrow>
     (\<exists>text. m = [(1, text)])
     \<or> (\<exists>llens m'. evaluate c (local_size k) ps = Inr llens
          \<and> axis_msgs llens (max_work_item_sizes (kernel_device k)) 0 = Inr m'
          \<and> m = m' @ (if prod_list llens > max_work_group_size (kernel_device k)
                                 then [(5, ''work group too big'')] else []))"
  unfolding grid_msgs_def unknown_variable_msg_def
  by (auto split: sum.splits option.splits if_splits)

lemma except_UnknownVariableError_simp [simp]:
  "except_UnknownVariableError (UnknownVariableError name) = Some name"
  by (simp add: except_UnknownVariableError_def)

lemma grid_msgs_severity:
  assumes "grid_msgs c k ps = Inr m"
  shows "\<forall>x \<in> set m. fst x = 1 \<or> fst x = 5"
  using grid_msgs_cases [OF assms] axis_msgs_severity by fastforce

lemma grid_msgs_returns:
  assumes "\<forall>e. evaluate c (group_size k) ps = Inl e \<longrightarrow> (\<exists>name. e = UnknownVariableError name)"
    and "\<forall>e. evaluate c (local_size k) ps = Inl e \<longrightarrow> (\<exists>name. e = UnknownVariableError name)"
    and "\<forall>llens. evaluate c (local_size k) ps = Inr llens
          \<longrightarrow> length llens \<le> length (max_work_item_sizes (kernel_device k))"
  shows "\<exists>m. grid_msgs c k ps = Inr m"
proof (cases "evaluate c (group_size k) ps")
  case (Inl e)
  with assms(1) show ?thesis
    by (auto simp: grid_msgs_def)
next
  case g: (Inr glens)
  show ?thesis
  proof (cases "evaluate c (local_size k) ps")
    case (Inl e)
    with assms(2) g show ?thesis
      by (auto simp: grid_msgs_def)
  next
    case (Inr llens)
    with assms(3) have "0 + length llens \<le> length (max_work_item_sizes (kernel_device k))"
      by simp
    from axis_msgs_returns [OF this] obtain m where
      "axis_msgs llens (max_work_item_sizes (kernel_device k)) 0 = Inr m"
      by blast
    with g Inr show ?thesis
      by (simp add: grid_msgs_def)
  qed
qed

lemma max_severity_fold:
  "fold (\<lambda>(sev, msg) m. max sev m) (ms :: msgs) a = r \<Longrightarrow>
     (r = a \<or> r \<in> fst ` set ms) \<and> a \<le> r \<and> (\<forall>x \<in> set ms. fst x \<le> r)"
proof (induction ms arbitrary: a)
  case Nil
  then show ?case by simp
next
  case (Cons x ms)
  obtain sev msg where x: "x = (sev, msg)" by (cases x)
  from Cons.prems have "fold (\<lambda>(sev, msg) m. max sev m) ms (max sev a) = r"
    by (simp add: x)
  from Cons.IH [OF this] show ?case
    by (auto simp: x max_def split: if_splits)
qed

lemma max_severity_is_max:
  assumes "\<forall>x \<in> set ms. 1 \<le> fst x"
  shows "(ms = [] \<longrightarrow> max_severity ms = 0)
     \<and> (ms \<noteq> [] \<longrightarrow> max_severity ms \<in> fst ` set ms)
     \<and> (\<forall>x \<in> set ms. fst x \<le> max_severity ms)"
proof -
  from max_severity_fold [of ms 0 "max_severity ms"]
  have f: "max_severity ms = 0 \<or> max_severity ms \<in> fst ` set ms"
    "\<forall>x \<in> set ms. fst x \<le> max_severity ms"
    by (simp_all add: max_severity_def)
  have "ms \<noteq> [] \<longrightarrow> max_severity ms \<in> fst ` set ms"
  proof
    assume "ms \<noteq> []"
    then obtain x where x: "x \<in> set ms" by (cases ms) auto
    with assms f(2) have "1 \<le> max_severity ms" by fastforce
    with f(1) show "max_severity ms \<in> fst ` set ms" by auto
  qed
  moreover have "ms = [] \<longrightarrow> max_severity ms = 0"
    by (simp add: max_severity_def)
  ultimately show ?thesis using f(2) by blast
qed

lemma empty_kernel_grid:
  "grid_msgs abstaining (empty_kernel\<lparr>local_mem_use := u\<rparr>) Map.empty = Inr []"
  by (simp add: grid_msgs_def abstaining_def empty_kernel_def no_device_def)

text \<open>
  Claim C10, as stated, at the kernel with nothing in it on the example device: no
  message is produced, and \<^verbatim>\<open>max_severity\<close> keeps its initial value 0 (line 468), which
  is not in the range 1 to 5.
\<close>

theorem get_problems_counterexample:
  "get_problems abstaining empty_kernel Map.empty = Inr (0, [])"
proof -
  have "grid_msgs abstaining empty_kernel Map.empty = Inr []"
    by (simp add: grid_msgs_def abstaining_def empty_kernel_def no_device_def)
  then show ?thesis
    by (simp add: get_problems_def Let_def max_severity_def)
       (simp add: empty_kernel_def no_device_def)
qed

text \<open>
  Claim C10, amended. Whenever \<^verbatim>\<open>get_problems\<close> returns, every severity in the list is
  1, 4 or 5; the first component is 0 when the list is empty, and otherwise it is the
  greatest severity of the list, hence between 1 and 5. It returns, rather than raises,
  when pymbolic's evaluation of the grid sizes raises nothing but the unknown-variable
  error and yields no more local sizes than the device has entries in
  \<^verbatim>\<open>max_work_item_sizes\<close>.
\<close>

theorem get_problems_severity:
  "(\<forall>m ms. get_problems c k ps = Inr (m, ms) \<longrightarrow>
       (\<forall>x \<in> set ms. fst x = 1 \<or> fst x = 4 \<or> fst x = 5)
       \<and> (ms = [] \<longrightarrow> m = 0)
       \<and> (ms \<noteq> [] \<longrightarrow> m \<in> fst ` set ms \<and> 1 \<le> m \<and> m \<le> 5)
       \<and> (\<forall>x \<in> set ms. fst x \<le> m))
   \<and> ((\<forall>e. evaluate c (group_size k) ps = Inl e \<longrightarrow> (\<exists>name. e = UnknownVariableError name))
       \<and> (\<forall>e. evaluate c (local_size k) ps = Inl e \<longrightarrow> (\<exists>name. e = UnknownVariableError name))
       \<and> (\<forall>llens. evaluate c (local_size k) ps = Inr llens
            \<longrightarrow> length llens \<le> length (max_work_item_sizes (kernel_device k)))
      \<longrightarrow> (\<exists>m ms. get_problems c k ps = Inr (m, ms)))"
proof -
  have part1: "(\<forall>x \<in> set ms. fst x = 1 \<or> fst x = 4 \<or> fst x = 5)
       \<and> (ms = [] \<longrightarrow> m = 0)
       \<and> (ms \<noteq> [] \<longrightarrow> m \<in> fst ` set ms \<and> 1 \<le> m \<and> m \<le> 5)
       \<and> (\<forall>x \<in> set ms. fst x \<le> m)"
    if r: "get_problems c k ps = Inr (m, ms)" for m ms
  proof -
    from r obtain msgs2 where g: "grid_msgs c k ps = Inr msgs2"
      by (auto simp: get_problems_def Let_def split: sum.splits)
    from r g have m: "m = max_severity ms"
      by (auto simp: get_problems_def Let_def)
    from r g grid_msgs_severity [OF g]
    have sev: "\<forall>x \<in> set ms. fst x = 1 \<or> fst x = 4 \<or> fst x = 5"
      by (auto simp: get_problems_def Let_def split: if_splits)
    then have one: "\<forall>x \<in> set ms. 1 \<le> fst x" by fastforce
    note mx = max_severity_is_max [OF one]
    have "ms \<noteq> [] \<longrightarrow> m \<in> fst ` set ms \<and> 1 \<le> m \<and> m \<le> 5"
    proof
      assume "ms \<noteq> []"
      with mx m have "m \<in> fst ` set ms" by simp
      with sev show "m \<in> fst ` set ms \<and> 1 \<le> m \<and> m \<le> 5" by fastforce
    qed
    with sev mx m show ?thesis by simp
  qed
  have part2: "\<exists>m ms. get_problems c k ps = Inr (m, ms)"
    if "(\<forall>e. evaluate c (group_size k) ps = Inl e \<longrightarrow> (\<exists>name. e = UnknownVariableError name))
       \<and> (\<forall>e. evaluate c (local_size k) ps = Inl e \<longrightarrow> (\<exists>name. e = UnknownVariableError name))
       \<and> (\<forall>llens. evaluate c (local_size k) ps = Inr llens
            \<longrightarrow> length llens \<le> length (max_work_item_sizes (kernel_device k)))"
  proof -
    from that obtain m where "grid_msgs c k ps = Inr m"
      using grid_msgs_returns [of c k ps] by blast
    then show ?thesis
      by (simp add: get_problems_def Let_def)
  qed
  from part1 part2 show ?thesis by blast
qed

theorem get_problems_severity_witness:
  "get_problems abstaining big_local_mem_kernel Map.empty
     = Inr (5, [(5, ''using too much local memory'')])"
proof -
  let ?k = big_local_mem_kernel
  have ev: "evaluate abstaining (group_size ?k) Map.empty = Inr []"
    "evaluate abstaining (local_size ?k) Map.empty = Inr []"
    by (simp_all add: abstaining_def big_local_mem_kernel_def empty_kernel_def)
  with get_problems_severity [of abstaining ?k Map.empty]
  obtain m ms where r: "get_problems abstaining ?k Map.empty = Inr (m, ms)"
    by auto
  have g: "grid_msgs abstaining ?k Map.empty = Inr []"
    unfolding big_local_mem_kernel_def by (rule empty_kernel_grid)
  from r g have ms: "ms = [(5, ''using too much local memory'')]"
    by (simp add: get_problems_def Let_def)
       (auto simp: big_local_mem_kernel_def empty_kernel_def no_device_def)
  from get_problems_severity [of abstaining ?k Map.empty] r
  have "ms \<noteq> [] \<longrightarrow> m \<in> fst ` set ms"
    by blast
  with ms have "m = 5" by simp
  with r ms show ?thesis by simp
qed

subsection \<open>Implemented domains\<close>

lemma foldl_union_set:
  "points (foldl union_set d0 ds) = (\<Union>d \<in> set (d0 # ds). points d)"
  "set_names (foldl union_set d0 ds) = set_names d0"
  "param_names (foldl union_set d0 ds) = param_names d0"
  by (induction ds arbitrary: d0) (auto simp: union_set_def)

lemma align_two_simps:
  "points (fst (align_two a b)) = points a"
  "points (snd (align_two a b)) = points b"
  "set_names (fst (align_two a b)) = set_names a"
  "set_names (snd (align_two a b)) = set_names b"
  "param_names (fst (align_two a b)) = remdups (param_names a @ param_names b)"
  "param_names (snd (align_two a b)) = remdups (param_names a @ param_names b)"
  by (simp_all add: align_two_def Let_def)

lemma project_out_except_simps:
  "points (project_out_except s names) = project_onto (set_names s) names (points s)"
  "set_names (project_out_except s names) = filter (\<lambda>n. n \<in> names) (set_names s)"
  "param_names (project_out_except s names) = param_names s"
  by (simp_all add: project_out_except_def project_onto_def)

lemma intersect_simps:
  "points (intersect a b) = points a \<inter> points b"
  "set_names (intersect a b) = set_names a"
  "param_names (intersect a b) = param_names a"
  by (simp_all add: intersect_def)

lemma from_params_simps:
  "points (from_params s) = points s"
  "param_names (from_params s) = param_names s"
  by (simp_all add: from_params_def)

lemma insn_impl_domain_simps:
  "points (insn_impl_domain k insn d0 ds) = implemented_projected k insn d0 ds"
  "set_names (insn_impl_domain k insn d0 ds)
     = filter (\<lambda>n. n \<in> set (insn_inames insn)) (set_names d0)"
  by (simp_all add: insn_impl_domain_def implemented_projected_def Let_def split_beta
      project_out_except_simps intersect_simps align_two_simps from_params_simps
      foldl_union_set)

lemma desired_domain_simps:
  "points (desired_domain k insn) = desired_projected k insn"
  "param_names (desired_domain k insn) = param_names (snd (aligned_insn_domain k insn))"
  by (simp_all add: desired_domain_def desired_projected_def aligned_insn_domain_def split_beta
      project_out_except_simps intersect_simps align_two_simps from_params_simps)

lemma point_axes_ok:
  "set names \<subseteq> set (param_names s) \<union> set (set_names s) \<Longrightarrow>
   point_axes s pt names = Inr (map (\<lambda>n. n @ ''='' @ str_int (pt n)) names)"
  by (induction names) auto

lemma sample_line_ok:
  assumes "sample_sound_on c (points diff_set)"
    and "set names \<subseteq> set (param_names diff_set) \<union> set (set_names diff_set)"
  shows "\<exists>lines. sample_line c names kind diff_set = Inr lines
      \<and> witness_lines names kind (points diff_set) lines"
proof (cases "sample_point c diff_set")
  case None
  with assms(1) have "points diff_set = {}"
    by (auto simp: sample_sound_on_def split: option.splits)
  with None show ?thesis
    by (simp add: sample_line_def coalesce_def witness_lines_def)
next
  case (Some pt)
  with assms(1) have "pt \<in> points diff_set"
    by (auto simp: sample_sound_on_def split: option.splits)
  with Some point_axes_ok [OF assms(2), of pt] show ?thesis
    by (auto simp: sample_line_def coalesce_def witness_lines_def)
qed

lemma entry_ok_iff:
  "implemented_domains_entry c k code entry = Inr () \<longleftrightarrow> entry_matches k entry"
proof -
  obtain i pieces where e: "entry = (i, pieces)" by (cases entry)
  show ?thesis
  proof (cases "id_to_insn k i")
    case None
    then show ?thesis by (simp add: e implemented_domains_entry_def entry_matches_def)
  next
    case (Some insn)
    show ?thesis
    proof (cases pieces)
      case Nil
      with Some show ?thesis by (simp add: e implemented_domains_entry_def entry_matches_def)
    next
      case (Cons d0 ds)
      have eq: "is_equal (fst (align_two (insn_impl_domain k insn d0 ds) (desired_domain k insn)))
           (snd (align_two (insn_impl_domain k insn d0 ds) (desired_domain k insn)))
         \<longleftrightarrow> implemented_projected k insn d0 ds = desired_projected k insn"
        by (simp add: is_equal_def align_two_simps insn_impl_domain_simps desired_domain_simps)
      show ?thesis
        using eq
        by (simp add: e Some Cons implemented_domains_entry_def entry_matches_def split_beta
            Let_def split: sum.splits)
    qed
  qed
qed


lemma subtract_simps:
  "points (subtract a b) = points a - points b"
  "set_names (subtract a b) = set_names a"
  "param_names (subtract a b) = param_names a"
  by (simp_all add: subtract_def)

lemma entry_mismatch:
  assumes insn: "id_to_insn k i = Some insn"
    and ne: "implemented_projected k insn d0 ds \<noteq> desired_projected k insn"
    and dims: "set (insn_inames insn) \<subseteq> set (set_names d0)"
      "set (insn_inames insn) \<subseteq> set (set_names (get_inames_domain k (set (insn_inames insn))))"
    and s1: "sample_sound_on c (implemented_projected k insn d0 ds - desired_projected k insn)"
    and s2: "sample_sound_on c (desired_projected k insn - implemented_projected k insn d0 ds)"
  shows "\<exists>impl desired lines1 lines2.
      implemented_domains_entry c k code (i, d0 # ds)
        = Inl (print_code code, DomainsDoNotMatch i impl desired (lines1 @ lines2))
      \<and> points impl = implemented_projected k insn d0 ds
      \<and> points desired = desired_projected k insn
      \<and> witness_lines (sample_names k insn) ''implemented, but not desired''
          (implemented_projected k insn d0 ds - desired_projected k insn) lines1
      \<and> witness_lines (sample_names k insn) ''desired, but not implemented''
          (desired_projected k insn - implemented_projected k insn d0 ds) lines2"
proof -
  define A where "A = insn_impl_domain k insn d0 ds"
  define B where "B = desired_domain k insn"
  define impl where "impl = fst (align_two A B)"
  define desired where "desired = snd (align_two A B)"
  have al: "align_two A B = (impl, desired)"
    by (simp add: impl_def desired_def)
  have p: "points impl = implemented_projected k insn d0 ds"
    "points desired = desired_projected k insn"
    by (simp_all add: impl_def desired_def A_def B_def align_two_simps
        insn_impl_domain_simps desired_domain_simps)
  have neq: "\<not> is_equal impl desired"
    using ne by (simp add: is_equal_def p)
  have sn: "set (insn_inames insn) \<subseteq> set (set_names impl)"
    "set (insn_inames insn) \<subseteq> set (set_names desired)"
    using dims
    by (auto simp: impl_def desired_def A_def B_def align_two_simps insn_impl_domain_simps
        desired_domain_def aligned_insn_domain_def split_beta project_out_except_simps
        intersect_simps)
  have pn: "set (param_names (snd (aligned_insn_domain k insn))) \<subseteq> set (param_names impl)"
    "set (param_names (snd (aligned_insn_domain k insn))) \<subseteq> set (param_names desired)"
    by (auto simp: impl_def desired_def A_def B_def align_two_simps desired_domain_simps)
  have names1: "set (sample_names k insn)
      \<subseteq> set (param_names (subtract impl desired)) \<union> set (set_names (subtract impl desired))"
    using sn pn by (auto simp: sample_names_def subtract_simps)
  have names2: "set (sample_names k insn)
      \<subseteq> set (param_names (subtract desired impl)) \<union> set (set_names (subtract desired impl))"
    using sn pn by (auto simp: sample_names_def subtract_simps)
  from sample_line_ok [of c "subtract impl desired" "sample_names k insn"
      "''implemented, but not desired''"] s1 names1
  obtain lines1 where l1: "sample_line c (sample_names k insn)
        ''implemented, but not desired'' (subtract impl desired) = Inr lines1"
    "witness_lines (sample_names k insn) ''implemented, but not desired''
          (implemented_projected k insn d0 ds - desired_projected k insn) lines1"
    by (auto simp: subtract_simps p)
  from sample_line_ok [of c "subtract desired impl" "sample_names k insn"
      "''desired, but not implemented''"] s2 names2
  obtain lines2 where l2: "sample_line c (sample_names k insn)
        ''desired, but not implemented'' (subtract desired impl) = Inr lines2"
    "witness_lines (sample_names k insn) ''desired, but not implemented''
          (desired_projected k insn - implemented_projected k insn d0 ds) lines2"
    by (auto simp: subtract_simps p)
  have "implemented_domains_entry c k code (i, d0 # ds)
        = Inl (print_code code, DomainsDoNotMatch i impl desired (lines1 @ lines2))"
    unfolding implemented_domains_entry_def
    by (simp add: insn al [unfolded A_def B_def] neq Let_def
        l1(1) [unfolded sample_names_def] l2(1) [unfolded sample_names_def])
  with p l1(2) l2(2) show ?thesis by blast
qed

text \<open>
  Claim C3. For an entry of the dictionary that names an instruction and has pieces, the
  code compares \<open>implemented_projected\<close> (the union of the pieces, cut with the
  assumptions and projected onto the inames of the instruction) with
  \<open>desired_projected\<close> (the same for the domain of the instruction).
  \<^verbatim>\<open>check_implemented_domains\<close> returns \<^verbatim>\<open>True\<close> exactly when the two are equal for
  every entry. At the first entry for which they differ it fails: provided the spaces of
  the two sets have the inames of the instruction and \<^verbatim>\<open>sample_point\<close> keeps isl's
  promise on the two differences, the error carries the two sets and, for each non-empty
  difference (implemented but not desired first, then desired but not implemented), one
  line with the \<^verbatim>\<open>name=value\<close> assignments of a point of that difference; an empty
  difference gives no line. The code text, when given, is printed before.
\<close>

theorem check_implemented_domains_verdict:
  "(snd (check_implemented_domains c k implemented_domains code) = Inr True
      \<longleftrightarrow> (\<forall>entry \<in> set implemented_domains. entry_matches k entry))
   \<and> (\<forall>pre i d0 ds post insn.
        implemented_domains = pre @ (i, d0 # ds) # post
        \<and> (\<forall>entry \<in> set pre. entry_matches k entry)
        \<and> id_to_insn k i = Some insn
        \<and> implemented_projected k insn d0 ds \<noteq> desired_projected k insn
        \<and> set (insn_inames insn) \<subseteq> set (set_names d0)
        \<and> set (insn_inames insn)
            \<subseteq> set (set_names (get_inames_domain k (set (insn_inames insn))))
        \<and> sample_sound_on c (implemented_projected k insn d0 ds - desired_projected k insn)
        \<and> sample_sound_on c (desired_projected k insn - implemented_projected k insn d0 ds)
      \<longrightarrow> (\<exists>impl desired lines1 lines2.
            check_implemented_domains c k implemented_domains code
              = (print_code code,
                 Inl (DomainsDoNotMatch i impl desired (lines1 @ lines2)))
            \<and> points impl = implemented_projected k insn d0 ds
            \<and> points desired = desired_projected k insn
            \<and> witness_lines (sample_names k insn) ''implemented, but not desired''
                (implemented_projected k insn d0 ds - desired_projected k insn) lines1
            \<and> witness_lines (sample_names k insn) ''desired, but not implemented''
                (desired_projected k insn - implemented_projected k insn d0 ds) lines2))"
proof -
  have A: "snd (check_implemented_domains c k implemented_domains code) = Inr True
      \<longleftrightarrow> (\<forall>entry \<in> set implemented_domains. entry_matches k entry)"
  proof -
    have "snd (check_implemented_domains c k implemented_domains code) = Inr True
      \<longleftrightarrow> for_each (implemented_domains_entry c k code) implemented_domains = Inr ()"
      by (auto simp: check_implemented_domains_def split: sum.splits)
    then show ?thesis
      by (simp add: for_each_Inr_iff entry_ok_iff)
  qed
  have B: "\<exists>impl desired lines1 lines2.
            check_implemented_domains c k implemented_domains code
              = (print_code code,
                 Inl (DomainsDoNotMatch i impl desired (lines1 @ lines2)))
            \<and> points impl = implemented_projected k insn d0 ds
            \<and> points desired = desired_projected k insn
            \<and> witness_lines (sample_names k insn) ''implemented, but not desired''
                (implemented_projected k insn d0 ds - desired_projected k insn) lines1
            \<and> witness_lines (sample_names k insn) ''desired, but not implemented''
                (desired_projected k insn - implemented_projected k insn d0 ds) lines2"
    if h: "implemented_domains = pre @ (i, d0 # ds) # post
        \<and> (\<forall>entry \<in> set pre. entry_matches k entry)
        \<and> id_to_insn k i = Some insn
        \<and> implemented_projected k insn d0 ds \<noteq> desired_projected k insn
        \<and> set (insn_inames insn) \<subseteq> set (set_names d0)
        \<and> set (insn_inames insn)
            \<subseteq> set (set_names (get_inames_domain k (set (insn_inames insn))))
        \<and> sample_sound_on c (implemented_projected k insn d0 ds - desired_projected k insn)
        \<and> sample_sound_on c (desired_projected k insn - implemented_projected k insn d0 ds)"
    for pre i d0 ds post insn
  proof -
    from h entry_mismatch [of k i insn d0 ds c code]
    obtain impl desired lines1 lines2 where
      e: "implemented_domains_entry c k code (i, d0 # ds)
        = Inl (print_code code, DomainsDoNotMatch i impl desired (lines1 @ lines2))"
      and r: "points impl = implemented_projected k insn d0 ds"
      "points desired = desired_projected k insn"
      "witness_lines (sample_names k insn) ''implemented, but not desired''
          (implemented_projected k insn d0 ds - desired_projected k insn) lines1"
      "witness_lines (sample_names k insn) ''desired, but not implemented''
          (desired_projected k insn - implemented_projected k insn d0 ds) lines2"
      by blast
    from h have pre: "\<forall>x \<in> set pre. implemented_domains_entry c k code x = Inr ()"
      by (simp add: entry_ok_iff)
    from for_each_first_error [OF pre e, of post] h
    have "check_implemented_domains c k implemented_domains code
              = (print_code code,
                 Inl (DomainsDoNotMatch i impl desired (lines1 @ lines2)))"
      by (simp add: check_implemented_domains_def)
    with r show ?thesis by blast
  qed
  from A B show ?thesis by blast
qed


lemma project_onto_id: "set dims \<subseteq> inames \<Longrightarrow> project_onto dims inames S = S"
proof -
  assume "set dims \<subseteq> inames"
  then have e: "set dims - inames = {}" by blast
  show ?thesis
  proof (rule set_eqI)
    fix pt
    show "pt \<in> project_onto dims inames S \<longleftrightarrow> pt \<in> S"
    proof
      assume "pt \<in> project_onto dims inames S"
      then obtain q where q: "q \<in> S" "\<forall>x. pt x = q x"
        by (auto simp: project_onto_def e)
      then have "pt = q" by (intro ext) simp
      with q show "pt \<in> S" by simp
    next
      assume "pt \<in> S"
      then show "pt \<in> project_onto dims inames S"
        by (auto simp: project_onto_def)
    qed
  qed
qed


lemma scenario_kernel_simps:
  "id_to_insn (array_kernel d temps e) ''read_a'' = Some (read_insn e)"
  "assumptions (array_kernel d temps e) = universe"
  by (simp_all add: array_kernel_def empty_kernel_def)

lemma points_simps:
  "points universe = UNIV"
  "points (i_below n) = {pt. 0 \<le> pt ''i'' \<and> pt ''i'' < n}"
  "points (i_equals n) = {pt. pt ''i'' = n}"
  "set_names (i_equals n) = [''i'']"
  "param_names universe = []"
  by (simp_all add: universe_def i_below_def i_equals_def)

lemma scenario_desired:
  "desired_projected (array_kernel (i_below 10) Map.empty e) (read_insn e)
     = {pt. 0 \<le> pt ''i'' \<and> pt ''i'' < 10}"
proof -
  have "desired_projected (array_kernel (i_below 10) Map.empty e) (read_insn e)
      = project_onto [''i''] {''i''} (points (i_below 10) \<inter> UNIV)"
    by (simp add: desired_projected_def array_kernel_simps scenario_kernel_simps
        read_insn_simps i_below_simps points_simps(1))
  also have "\<dots> = points (i_below 10)"
    by (simp add: project_onto_id)
  finally show ?thesis by (simp add: points_simps)
qed

lemma scenario_implemented_redundant:
  "implemented_projected (array_kernel (i_below 10) Map.empty e) (read_insn e)
     (i_below 10) [i_equals 3] = {pt. 0 \<le> pt ''i'' \<and> pt ''i'' < 10}"
proof -
  have "implemented_projected (array_kernel (i_below 10) Map.empty e) (read_insn e)
     (i_below 10) [i_equals 3]
      = project_onto [''i''] {''i''} ((points (i_below 10) \<union> points (i_equals 3)) \<inter> UNIV)"
    by (simp add: implemented_projected_def scenario_kernel_simps
        read_insn_simps i_below_simps points_simps(1))
  also have "\<dots> = points (i_below 10) \<union> points (i_equals 3)"
    by (simp add: project_onto_id)
  also have "\<dots> = {pt. 0 \<le> pt ''i'' \<and> pt ''i'' < 10}"
    unfolding points_simps by auto
  finally show ?thesis .
qed

lemma scenario_implemented_short:
  "implemented_projected (array_kernel (i_below 10) Map.empty e) (read_insn e)
     (i_below 9) [] = {pt. 0 \<le> pt ''i'' \<and> pt ''i'' < 9}"
proof -
  have "implemented_projected (array_kernel (i_below 10) Map.empty e) (read_insn e)
     (i_below 9) []
      = project_onto [''i''] {''i''} (points (i_below 9) \<inter> UNIV)"
    by (simp add: implemented_projected_def scenario_kernel_simps
        read_insn_simps i_below_simps points_simps(1))
  also have "\<dots> = points (i_below 9)"
    by (simp add: project_onto_id)
  finally show ?thesis by (simp add: points_simps)
qed

lemma scenario_sample_names:
  "sample_names (array_kernel (i_below 10) Map.empty e) (read_insn e) = [''i'']"
  by (simp add: sample_names_def aligned_insn_domain_def align_two_simps from_params_simps
      array_kernel_simps scenario_kernel_simps read_insn_simps i_below_simps points_simps)

lemma str_int_9: "str_int 9 = ''9''"
  by (simp add: str_int_def digit_char_def)


lemma sampling_nine_sample:
  "sample_point sampling_nine s = (if (\<lambda>x. 9) \<in> points s then Some (\<lambda>x. 9) else None)"
  by (simp add: sampling_nine_def)

lemma sampling_nine_sound:
  "sample_sound_on sampling_nine {}"
  "sample_sound_on sampling_nine {pt. pt ''i'' = 9}"
  by (simp_all add: sample_sound_on_def sampling_nine_sample)

lemma scenario_differences:
  "{pt :: point. 0 \<le> pt ''i'' \<and> pt ''i'' < 9} - {pt. 0 \<le> pt ''i'' \<and> pt ''i'' < 10} = {}"
  "{pt :: point. 0 \<le> pt ''i'' \<and> pt ''i'' < 10} - {pt. 0 \<le> pt ''i'' \<and> pt ''i'' < 9}
     = {pt. pt ''i'' = 9}"
  by auto

lemma scenario_unequal:
  "{pt :: point. 0 \<le> pt ''i'' \<and> pt ''i'' < 9} \<noteq> {pt. 0 \<le> pt ''i'' \<and> pt ''i'' < 10}"
proof
  assume eq: "{pt :: point. 0 \<le> pt ''i'' \<and> pt ''i'' < 9} = {pt. 0 \<le> pt ''i'' \<and> pt ''i'' < 10}"
  have "((\<lambda>x. 9) :: point) \<in> {pt. 0 \<le> pt ''i'' \<and> pt ''i'' < 10}" by simp
  then have "((\<lambda>x. 9) :: point) \<in> {pt. 0 \<le> pt ''i'' \<and> pt ''i'' < 9}"
    unfolding eq .
  then show False by simp
qed


lemma scenario_redundant_matches:
  "entry_matches (array_kernel (i_below 10) Map.empty e) (''read_a'', [i_below 10, i_equals 3])"
  unfolding entry_matches_def prod.case scenario_kernel_simps
  using scenario_desired [of e] scenario_implemented_redundant [of e]
  by simp

lemma scenario_short_hypotheses:
  "[(''read_a'', [i_below 9])] = [] @ (''read_a'', i_below 9 # []) # []"
  "\<forall>entry \<in> set []. entry_matches (array_kernel (i_below 10) Map.empty e) entry"
  "id_to_insn (array_kernel (i_below 10) Map.empty e) ''read_a'' = Some (read_insn e)"
  "implemented_projected (array_kernel (i_below 10) Map.empty e) (read_insn e) (i_below 9) []
     \<noteq> desired_projected (array_kernel (i_below 10) Map.empty e) (read_insn e)"
  "set (insn_inames (read_insn e)) \<subseteq> set (set_names (i_below 9))"
  "set (insn_inames (read_insn e))
     \<subseteq> set (set_names (get_inames_domain (array_kernel (i_below 10) Map.empty e)
           (set (insn_inames (read_insn e)))))"
  "sample_sound_on sampling_nine
     (implemented_projected (array_kernel (i_below 10) Map.empty e) (read_insn e) (i_below 9) []
        - desired_projected (array_kernel (i_below 10) Map.empty e) (read_insn e))"
  "sample_sound_on sampling_nine
     (desired_projected (array_kernel (i_below 10) Map.empty e) (read_insn e)
        - implemented_projected (array_kernel (i_below 10) Map.empty e) (read_insn e)
            (i_below 9) [])"
proof -
  show "[(''read_a'', [i_below 9])] = [] @ (''read_a'', i_below 9 # []) # []"
    by simp
  show "\<forall>entry \<in> set []. entry_matches (array_kernel (i_below 10) Map.empty e) entry"
    by simp
  show "id_to_insn (array_kernel (i_below 10) Map.empty e) ''read_a'' = Some (read_insn e)"
    by (rule scenario_kernel_simps)
  show "implemented_projected (array_kernel (i_below 10) Map.empty e) (read_insn e) (i_below 9) []
     \<noteq> desired_projected (array_kernel (i_below 10) Map.empty e) (read_insn e)"
    unfolding scenario_desired scenario_implemented_short by (rule scenario_unequal)
  show "set (insn_inames (read_insn e)) \<subseteq> set (set_names (i_below 9))"
    by (simp add: read_insn_simps i_below_simps)
  show "set (insn_inames (read_insn e))
     \<subseteq> set (set_names (get_inames_domain (array_kernel (i_below 10) Map.empty e)
           (set (insn_inames (read_insn e)))))"
    by (simp add: read_insn_simps i_below_simps array_kernel_simps)
  show "sample_sound_on sampling_nine
     (implemented_projected (array_kernel (i_below 10) Map.empty e) (read_insn e) (i_below 9) []
        - desired_projected (array_kernel (i_below 10) Map.empty e) (read_insn e))"
    unfolding scenario_desired scenario_implemented_short scenario_differences
    by (rule sampling_nine_sound)
  show "sample_sound_on sampling_nine
     (desired_projected (array_kernel (i_below 10) Map.empty e) (read_insn e)
        - implemented_projected (array_kernel (i_below 10) Map.empty e) (read_insn e)
            (i_below 9) [])"
    unfolding scenario_desired scenario_implemented_short scenario_differences
    by (rule sampling_nine_sound)
qed


lemma nine_nonempty: "{pt :: point. pt ''i'' = 9} \<noteq> {}"
proof
  assume "{pt :: point. pt ''i'' = 9} = {}"
  then have "((\<lambda>x. 9) :: point) \<notin> {pt. pt ''i'' = 9}"
    by (simp only: empty_iff not_False_eq_True)
  then show False by simp
qed

text \<open>
  The two scenarios of the specification for the desired domain \<open>0 \<le> i < 10\<close>: the
  pieces \<open>0 \<le> i < 10\<close> and \<open>i = 3\<close> pass, and the piece \<open>0 \<le> i < 9\<close> fails with
  the one line \<open>i=9\<close> on the side desired but not implemented.
\<close>

theorem check_implemented_domains_verdict_witness:
  "snd (check_implemented_domains sampling_nine (array_kernel (i_below 10) Map.empty (Constant 0))
          [(''read_a'', [i_below 10, i_equals 3])] None) = Inr True
   \<and> (\<exists>impl desired.
        check_implemented_domains sampling_nine (array_kernel (i_below 10) Map.empty (Constant 0))
          [(''read_a'', [i_below 9])] None
          = ([], Inl (DomainsDoNotMatch ''read_a'' impl desired
                        [''sample point desired, but not implemented: i=9'']))
        \<and> points impl = {pt. 0 \<le> pt ''i'' \<and> pt ''i'' < 9}
        \<and> points desired = {pt. 0 \<le> pt ''i'' \<and> pt ''i'' < 10})"
proof -
  let ?k = "array_kernel (i_below 10) Map.empty (Constant 0)"
  have "\<forall>entry \<in> set [(''read_a'', [i_below 10, i_equals 3])]. entry_matches ?k entry"
    using scenario_redundant_matches [of "Constant 0"] by simp
  then have a: "snd (check_implemented_domains sampling_nine ?k
          [(''read_a'', [i_below 10, i_equals 3])] None) = Inr True"
    by (rule check_implemented_domains_verdict [THEN conjunct1, THEN iffD2])
  let ?insn = "read_insn (Constant 0)"
  note v = check_implemented_domains_verdict
      [of sampling_nine ?k "[(''read_a'', [i_below 9])]" None, THEN conjunct2,
       THEN spec [of _ "[]"], THEN spec [of _ "''read_a''"], THEN spec [of _ "i_below 9"],
       THEN spec [of _ "[]"], THEN spec [of _ "[]"], THEN spec [of _ "read_insn (Constant 0)"],
       THEN mp]
  have raw: "\<exists>impl desired lines1 lines2.
      check_implemented_domains sampling_nine ?k [(''read_a'', [i_below 9])] None
          = (print_code None, Inl (DomainsDoNotMatch ''read_a'' impl desired (lines1 @ lines2)))
      \<and> points impl = implemented_projected ?k ?insn (i_below 9) []
      \<and> points desired = desired_projected ?k ?insn
      \<and> witness_lines (sample_names ?k ?insn) ''implemented, but not desired''
           (implemented_projected ?k ?insn (i_below 9) [] - desired_projected ?k ?insn) lines1
      \<and> witness_lines (sample_names ?k ?insn) ''desired, but not implemented''
           (desired_projected ?k ?insn - implemented_projected ?k ?insn (i_below 9) []) lines2"
    by (rule v) (intro conjI scenario_short_hypotheses)
  have "\<exists>impl desired lines1 lines2.
      check_implemented_domains sampling_nine ?k [(''read_a'', [i_below 9])] None
          = (print_code None, Inl (DomainsDoNotMatch ''read_a'' impl desired (lines1 @ lines2)))
      \<and> points impl = {pt. 0 \<le> pt ''i'' \<and> pt ''i'' < 9}
      \<and> points desired = {pt. 0 \<le> pt ''i'' \<and> pt ''i'' < 10}
      \<and> witness_lines [''i''] ''implemented, but not desired'' {} lines1
      \<and> witness_lines [''i''] ''desired, but not implemented'' {pt. pt ''i'' = 9} lines2"
    using raw
    unfolding scenario_desired scenario_implemented_short scenario_sample_names
      scenario_differences .
  then obtain impl desired lines1 lines2 where
    r: "check_implemented_domains sampling_nine ?k [(''read_a'', [i_below 9])] None
          = (print_code None, Inl (DomainsDoNotMatch ''read_a'' impl desired (lines1 @ lines2)))"
    and p: "points impl = {pt. 0 \<le> pt ''i'' \<and> pt ''i'' < 9}"
      "points desired = {pt. 0 \<le> pt ''i'' \<and> pt ''i'' < 10}"
    and w1: "witness_lines [''i''] ''implemented, but not desired'' {} lines1"
    and w2: "witness_lines [''i''] ''desired, but not implemented'' {pt. pt ''i'' = 9} lines2"
    by blast
  from w1 have l1: "lines1 = []"
    unfolding witness_lines_def by simp
  from w2 have "\<exists>pt \<in> {pt :: point. pt ''i'' = 9}.
      lines2 = [''sample point '' @ ''desired, but not implemented'' @ '': ''
                 @ join '', '' (map (\<lambda>n. n @ ''='' @ str_int (pt n)) [''i''])]"
    unfolding witness_lines_def if_not_P [OF nine_nonempty] .
  then obtain pt :: point where pt': "pt \<in> {pt. pt ''i'' = 9}"
    and l: "lines2 = [''sample point '' @ ''desired, but not implemented'' @ '': ''
                 @ join '', '' (map (\<lambda>n. n @ ''='' @ str_int (pt n)) [''i''])]"
    ..
  from pt' have pt: "pt ''i'' = 9" by simp
  have "join '', '' (map (\<lambda>n. n @ ''='' @ str_int (pt n)) [''i'']) = ''i=9''"
    by (simp add: pt str_int_9)
  then have l2: "lines2 = [''sample point desired, but not implemented: i=9'']"
    unfolding l by simp
  have pc: "print_code None = []"
    by (simp add: print_code_def)
  have b: "check_implemented_domains sampling_nine ?k [(''read_a'', [i_below 9])] None
          = ([], Inl (DomainsDoNotMatch ''read_a'' impl desired
                        [''sample point desired, but not implemented: i=9'']))"
    using r unfolding l1 l2 pc by simp
  have c: "\<exists>impl desired.
        check_implemented_domains sampling_nine ?k [(''read_a'', [i_below 9])] None
          = ([], Inl (DomainsDoNotMatch ''read_a'' impl desired
                        [''sample point desired, but not implemented: i=9'']))
        \<and> points impl = {pt. 0 \<le> pt ''i'' \<and> pt ''i'' < 9}
        \<and> points desired = {pt. 0 \<le> pt ''i'' \<and> pt ''i'' < 10}"
    apply (rule exI [of _ impl])
    apply (rule exI [of _ desired])
    apply (intro conjI)
      apply (rule b)
     apply (rule p(1))
    apply (rule p(2))
    done
  from a c show ?thesis by (rule conjI)
qed

end
